theory Spec2Isabelle
  imports Main "HOL-Library.Sublist"
begin

section \<open>Python strings and lists\<close>

text \<open>
  A Python \<open>str\<close> is modelled as a \<open>string\<close>: one \<open>char\<close> per code point, for
  the code points below 256. The operations below are the ones
  \<open>ScientificGenerator.py\<close> applies to service responses.
\<close>

text \<open>\<open>str.isspace\<close> on one code point below 256.\<close>

definition isspace :: "char \<Rightarrow> bool" where
  "isspace c = (c \<in> set [CHR 0x09, CHR 0x0A, CHR 0x0B, CHR 0x0C, CHR 0x0D, CHR 0x1C,
     CHR 0x1D, CHR 0x1E, CHR 0x1F, CHR 0x20, CHR 0x85, CHR 0xA0])"

text \<open>\<open>s.strip()\<close>\<close>

definition str_strip :: "string \<Rightarrow> string" where
  "str_strip s = rev (dropWhile isspace (rev (dropWhile isspace s)))"

text \<open>
  \<open>s.split(sep)\<close> for a one-character separator. The result is never the empty
  list, so the first branch of the \<open>case\<close> is never taken.
\<close>

fun str_split :: "char \<Rightarrow> string \<Rightarrow> string list" where
  "str_split sep [] = [[]]"
| "str_split sep (c # cs) =
     (if c = sep then [] # str_split sep cs
      else (case str_split sep cs of
              [] \<Rightarrow> [[c]]
            | line # rest \<Rightarrow> (c # line) # rest))"

text \<open>\<open>sep.join(xs)\<close>\<close>

fun str_join :: "string \<Rightarrow> string list \<Rightarrow> string" where
  "str_join sep [] = []"
| "str_join sep [x] = x"
| "str_join sep (x # y # ys) = x @ sep @ str_join sep (y # ys)"

text \<open>\<open>s.startswith(p)\<close>\<close>

definition startswith :: "string \<Rightarrow> string \<Rightarrow> bool" where
  "startswith s p = prefix p s"

text \<open>
  \<open>s.replace(old, new)\<close>: every occurrence of \<open>old\<close>, found from the left without
  overlap, becomes \<open>new\<close>. With an empty \<open>old\<close> Python puts \<open>new\<close> before every
  character and at the end.
\<close>

function str_replace :: "string \<Rightarrow> string \<Rightarrow> string \<Rightarrow> string" where
  "str_replace s old new =
     (if old = [] then new @ concat (map (\<lambda>c. c # new) s)
      else if s = [] then []
      else if prefix old s then new @ str_replace (drop (length old) s) old new
      else hd s # str_replace (tl s) old new)"
  by pat_completeness auto
termination
  by (relation "measure (\<lambda>(s, old, new). length s)") auto

declare str_replace.simps [simp del]

text \<open>The slices \<open>xs[:n]\<close> and \<open>xs[i:]\<close> for any Python int, negative ones counting from the end.\<close>

definition slice_to :: "'a list \<Rightarrow> int \<Rightarrow> 'a list" where
  "slice_to xs n = (if n < 0 then take (nat (int (length xs) + n)) xs else take (nat n) xs)"

definition slice_from :: "'a list \<Rightarrow> int \<Rightarrow> 'a list" where
  "slice_from xs i = (if i < 0 then drop (nat (int (length xs) + i)) xs else drop (nat i) xs)"

text \<open>\<open>[line.strip() for line in response.split('\n') if line.strip()]\<close>\<close>

definition stripped_lines :: "string \<Rightarrow> string list" where
  "stripped_lines response =
     map str_strip (filter (\<lambda>line. str_strip line \<noteq> []) (str_split CHR 0x0A response))"

text \<open>Decimal formatting: \<open>{n}\<close> in an f-string, and \<open>{i:02d}\<close> (zero-padded to width 2).\<close>

definition digit_char :: "nat \<Rightarrow> char" where
  "digit_char d = ''0123456789'' ! (d mod 10)"

fun str_nat :: "nat \<Rightarrow> string" where
  "str_nat n = (if n < 10 then [digit_char n] else str_nat (n div 10) @ [digit_char (n mod 10)])"

declare str_nat.simps [simp del]

definition str_int :: "int \<Rightarrow> string" where
  "str_int i = (if i < 0 then CHR ''-'' # str_nat (nat (- i)) else str_nat (nat i))"

definition fmt_02d :: "nat \<Rightarrow> string" where
  "fmt_02d i = replicate (2 - length (str_nat i)) CHR ''0'' @ str_nat i"

text \<open>
  What reading a file in text mode returns (\<open>open(path, "r")\<close> with the default
  \<open>newline=None\<close>): every \<open>\r\n\<close> and every other \<open>\r\<close> of the file becomes
  \<open>\n\<close>.
\<close>

fun universal_newlines :: "string \<Rightarrow> string" where
  "universal_newlines [] = []"
| "universal_newlines (c # cs) =
     (if c = CHR 0x0D then
        (case cs of
           [] \<Rightarrow> [CHR 0x0A]
         | d # ds \<Rightarrow>
             (if d = CHR 0x0A then CHR 0x0A # universal_newlines ds
              else CHR 0x0A # universal_newlines cs))
      else c # universal_newlines cs)"

section \<open>Values, errors, the service, and the world a run acts on\<close>

text \<open>
  What \<open>response.json()['response']\<close> evaluates to is whatever JSON value the service
  put there: a \<open>str\<close>, or something else (\<open>None\<close> for \<open>null\<close>, a number, a
  boolean, a list, a dictionary). The code looks at such a value in four ways only: its
  truth value (\<open>if response:\<close>), its text in an f-string, the methods \<open>split\<close> and
  \<open>strip\<close>, and as an operand of \<open>+=\<close> on a string or as the argument of
  \<open>f.write\<close>. So a value that is not a \<open>str\<close> is modelled by its truth value and its
  text \<open>str(v)\<close>: \<open>None\<close> is \<open>Other False ''None''\<close>, the number 5 is
  \<open>Other True ''5''\<close>.
\<close>

datatype py_value = Str string | Other bool string

fun truthy :: "py_value \<Rightarrow> bool" where
  "truthy (Str s) = (s \<noteq> [])"
| "truthy (Other b s) = b"

fun py_str :: "py_value \<Rightarrow> string" where
  "py_str (Str s) = s"
| "py_str (Other b s) = s"

text \<open>
  The exceptions that leave \<open>generate_book\<close>: a method of \<open>str\<close> looked up on a value
  that is not one, a value that is not a \<open>str\<close> added to a string or written to a
  file, and a file that is not there.
\<close>

datatype error = AttributeError | TypeError | FileNotFoundError string

text \<open>\<open>v.split\<close> and \<open>v.strip\<close>: the string itself when \<open>v\<close> is one.\<close>

fun str_method :: "py_value \<Rightarrow> error + string" where
  "str_method (Str s) = Inr s"
| "str_method (Other b s) = Inl AttributeError"

text \<open>\<open>text += v\<close> and \<open>f.write(v)\<close>: the string itself when \<open>v\<close> is one.\<close>

fun str_operand :: "py_value \<Rightarrow> error + string" where
  "str_operand (Str s) = Inr s"
| "str_operand (Other b s) = Inl TypeError"

text \<open>
  One call of \<open>requests.post\<close>: it raises (network error, timeout), or it returns a
  response with a status code and a body. The body is \<open>Some v\<close> when
  \<open>response.json()['response']\<close> evaluates to the value \<open>v\<close>, and \<open>None\<close> when that
  expression raises. The service is any state machine \<open>post\<close>: from its state and the
  prompt it gives the outcome and its next state, so it covers every sequence of
  responses, also ones that depend on the prompt or on the time of the call.
\<close>

datatype post_result = Response int "py_value option" | PostException

text \<open>What a run does to the outside, in order: requests posted and sleeps.\<close>

datatype event = Post string | Sleep nat

text \<open>
  The world: the service's state, the events so far, and the files, a map from the
  path to the text. Directories are not modelled (\<open>os.makedirs\<close> is a no-op on the
  map), file operations do not fail for reasons of the operating system, a file holds
  what was written to it (the line separator is \<open>\n\<close>), and console output is left
  out.
\<close>

record 's world =
  service :: 's
  events :: "event list"
  files :: "string \<rightharpoonup> string"

definition sleep :: "nat \<Rightarrow> 's world \<Rightarrow> 's world" where
  "sleep secs w = w\<lparr>events := events w @ [Sleep secs]\<rparr>"

definition write_file :: "string \<Rightarrow> string \<Rightarrow> 's world \<Rightarrow> 's world" where
  "write_file path content w = w\<lparr>files := (files w)(path \<mapsto> content)\<rparr>"

section \<open>The request layer: \<open>_make_request\<close>\<close>

text \<open>
  After a failed attempt, in the \<open>else\<close> branch and in the \<open>except\<close> branch alike:
  \<open>if attempt < max_retries - 1: time.sleep(retry_delay)\<close>.
\<close>

definition backoff :: "nat \<Rightarrow> nat \<Rightarrow> nat \<Rightarrow> 's world \<Rightarrow> 's world" where
  "backoff attempt max_retries retry_delay w =
     (if int attempt < int max_retries - 1 then sleep retry_delay w else w)"

text \<open>
  The body of \<open>for attempt in range(max_retries)\<close>, over the attempts still to make.
  With a status of 200 the value of the body is returned as it is, a string or not. A
  status of 200 whose body cannot be read raises inside the \<open>try\<close> and is handled as
  any other exception. When the attempts run out the result is the empty string.
\<close>

fun attempts ::
  "('s \<Rightarrow> string \<Rightarrow> post_result \<times> 's) \<Rightarrow> string \<Rightarrow> nat \<Rightarrow> nat \<Rightarrow> nat list \<Rightarrow> 's world
     \<Rightarrow> py_value \<times> 's world" where
  "attempts post prompt max_retries retry_delay [] w = (Str [], w)"
| "attempts post prompt max_retries retry_delay (attempt # rest) w =
     (let (r, s') = post (service w) prompt;
          w1 = w\<lparr>service := s', events := events w @ [Post prompt]\<rparr>
      in case r of
           Response status_code body \<Rightarrow>
             (if status_code = 200 then
                (case body of
                   Some v \<Rightarrow> (v, w1)
                 | None \<Rightarrow>
                     attempts post prompt max_retries retry_delay rest
                       (backoff attempt max_retries retry_delay w1))
              else
                attempts post prompt max_retries retry_delay rest
                  (backoff attempt max_retries retry_delay w1))
         | PostException \<Rightarrow>
             attempts post prompt max_retries retry_delay rest
               (backoff attempt max_retries retry_delay w1))"

text \<open>
  \<open>max_retries\<close> and \<open>retry_delay\<close> are natural numbers: every caller in the file
  leaves them at their defaults 3 and 5.
\<close>

definition make_request ::
  "('s \<Rightarrow> string \<Rightarrow> post_result \<times> 's) \<Rightarrow> string \<Rightarrow> nat \<Rightarrow> nat \<Rightarrow> 's world
     \<Rightarrow> py_value \<times> 's world" where
  "make_request post prompt max_retries retry_delay w =
     attempts post prompt max_retries retry_delay [0..<max_retries] w"

text \<open>An attempt fails when it raises, has a status other than 200, or has no readable body.\<close>

fun failed :: "post_result \<Rightarrow> bool" where
  "failed PostException = True"
| "failed (Response status_code body) = (status_code \<noteq> 200 \<or> body = None)"

section \<open>The generation stages\<close>

text \<open>
  Each stage builds its prompt, calls \<open>_make_request\<close> with the default 3 attempts
  and 5 seconds of delay, and post-processes the value it gets. A stage returns its
  result and the world after its requests, or the exception it raises. Python's
  \<open>if response:\<close> is \<open>truthy response\<close>.
\<close>

subsection \<open>\<open>generate_outline\<close>\<close>

definition outline_prompt :: "string \<Rightarrow> int \<Rightarrow> string" where
  \<open>outline_prompt topic num_chapters =
     ''\<newline>'' @
     ''        Create a detailed outline for a book on the topic "'' @ topic @ ''".\<newline>'' @
     ''        The outline should contain exactly '' @ str_int num_chapters @ '' chapters.\<newline>'' @
     ''        Each chapter should have a logical sequence and connection to the other chapters.\<newline>'' @
     ''        Each chapter title should be informative and appealing to the reader.\<newline>'' @
     ''        Return only the chapter titles, one per line.\<newline>'' @
     ''        ''\<close>

definition additional_prompt :: "string \<Rightarrow> int \<Rightarrow> string list \<Rightarrow> string" where
  \<open>additional_prompt topic additional_needed chapters =
     ''\<newline>'' @
     ''                Create '' @ str_int additional_needed @ '' more chapters for a book on the topic "'' @ topic @ ''".\<newline>'' @
     ''                These chapters should complement the existing chapters:\<newline>'' @
     ''                '' @ str_join '', '' chapters @ ''\<newline>'' @
     ''                Each new chapter should be on a separate line.\<newline>'' @
     ''                ''\<close>

definition generate_outline ::
  "('s \<Rightarrow> string \<Rightarrow> post_result \<times> 's) \<Rightarrow> string \<Rightarrow> int \<Rightarrow> 's world
     \<Rightarrow> error + (string list \<times> 's world)" where
  "generate_outline post topic num_chapters w =
     (let (response, w1) = make_request post (outline_prompt topic num_chapters) 3 5 w
      in if truthy response then
           (case str_method response of
              Inl e \<Rightarrow> Inl e
            | Inr text \<Rightarrow>
                (let chapters = stripped_lines text
                 in if int (length chapters) > num_chapters then
                      Inr (slice_to chapters num_chapters, w1)
                    else if int (length chapters) < num_chapters then
                      (let additional_needed = num_chapters - int (length chapters);
                           (additional_response, w2) =
                              make_request post (additional_prompt topic additional_needed chapters) 3 5 w1
                       in if truthy additional_response then
                            (case str_method additional_response of
                               Inl e \<Rightarrow> Inl e
                             | Inr additional_text \<Rightarrow>
                                 Inr (chapters @
                                        slice_to (stripped_lines additional_text) additional_needed, w2))
                          else Inr (chapters, w2))
                    else Inr (chapters, w1)))
         else Inr ([], w1))"

subsection \<open>\<open>generate_chapter_structure\<close>\<close>

text \<open>
  \<open>previous_summary\<close> is what \<open>summarize_chapter\<close> returned, a string or not: the
  f-string takes its text.
\<close>

definition structure_context :: "py_value \<Rightarrow> string" where
  "structure_context previous_summary =
     (if truthy previous_summary then
        ''Summary of the previous chapter: '' @ py_str previous_summary @ ''\<newline>''
      else [])"

definition chapter_structure_prompt :: "string \<Rightarrow> py_value \<Rightarrow> string" where
  \<open>chapter_structure_prompt chapter_title previous_summary =
     ''\<newline>'' @
     ''        '' @ structure_context previous_summary @ ''\<newline>'' @
     ''        Create a detailed structure for the chapter titled: "'' @ chapter_title @ ''"\<newline>'' @
     ''        \<newline>'' @
     ''        The chapter should have the following structure:\<newline>'' @
     ''        1. Chapter introduction\<newline>'' @
     ''        2. 3-5 logically connected subsections with informative titles\<newline>'' @
     ''        3. Chapter conclusion\<newline>'' @
     ''        \<newline>'' @
     ''        Return only the section titles, one per line, including "Introduction" and "Conclusion".\<newline>'' @
     ''        ''\<close>

definition generate_chapter_structure ::
  "('s \<Rightarrow> string \<Rightarrow> post_result \<times> 's) \<Rightarrow> string \<Rightarrow> py_value \<Rightarrow> 's world
     \<Rightarrow> error + (string list \<times> 's world)" where
  "generate_chapter_structure post chapter_title previous_summary w =
     (let (response, w1) = make_request post (chapter_structure_prompt chapter_title previous_summary) 3 5 w
      in if truthy response then
           (case str_method response of
              Inl e \<Rightarrow> Inl e
            | Inr text \<Rightarrow> Inr (stripped_lines text, w1))
         else Inr ([''Introduction'', ''Main Content'', ''Conclusion''], w1))"

subsection \<open>\<open>generate_chapter_chunk\<close>\<close>

definition chunk_context :: "string \<Rightarrow> string" where
  "chunk_context previous_content =
     (if previous_content \<noteq> [] then
        ''Previous content: '' @ slice_from previous_content (- 500) @ '' (continuation)''
      else [])"

definition chapter_chunk_prompt :: "string \<Rightarrow> string \<Rightarrow> string \<Rightarrow> string" where
  \<open>chapter_chunk_prompt chapter_title section_title previous_content =
     ''\<newline>'' @
     ''        '' @ chunk_context previous_content @ ''\<newline>'' @
     ''        Write the section "'' @ section_title @ ''" for the book chapter "'' @ chapter_title @ ''"\<newline>'' @
     ''        \<newline>'' @
     ''        Requirements:\<newline>'' @
     ''        1. Length - approximately 500-700 words\<newline>'' @
     ''        2. Academic writing style with professional terminology\<newline>'' @
     ''        3. Substantial arguments supported by facts\<newline>'' @
     ''        4. Logical structure with smooth transitions between paragraphs\<newline>'' @
     ''        5. If this is the introduction, provide an overview of the chapter\<newline>'' @
     ''        6. If this is the conclusion, summarize and link to the next chapter\<newline>'' @
     ''        \<newline>'' @
     ''        Begin writing the section:\<newline>'' @
     ''        ''\<close>

definition generate_chapter_chunk ::
  "('s \<Rightarrow> string \<Rightarrow> post_result \<times> 's) \<Rightarrow> string \<Rightarrow> string \<Rightarrow> string \<Rightarrow> 's world
     \<Rightarrow> py_value \<times> 's world" where
  "generate_chapter_chunk post chapter_title section_title previous_content w =
     make_request post (chapter_chunk_prompt chapter_title section_title previous_content) 3 5 w"

subsection \<open>\<open>summarize_chapter\<close>\<close>

definition summary_prompt :: "string \<Rightarrow> string" where
  \<open>summary_prompt chapter_content =
     ''\<newline>'' @
     ''        Create a summary (150-200 words) of the following text:\<newline>'' @
     ''        \<newline>'' @
     ''        '' @ slice_to chapter_content 3000 @ ''...\<newline>'' @
     ''        \<newline>'' @
     ''        The summary should:\<newline>'' @
     ''        1. Cover the key ideas and arguments\<newline>'' @
     ''        2. Highlight the main conclusions\<newline>'' @
     ''        3. Be written in the present tense\<newline>'' @
     ''        4. Serve as a good context for the next chapter\<newline>'' @
     ''        ''\<close>

definition summarize_chapter ::
  "('s \<Rightarrow> string \<Rightarrow> post_result \<times> 's) \<Rightarrow> string \<Rightarrow> 's world \<Rightarrow> py_value \<times> 's world" where
  "summarize_chapter post chapter_content w = make_request post (summary_prompt chapter_content) 3 5 w"

subsection \<open>\<open>generate_metadata\<close>\<close>

text \<open>The dictionary with the three keys \<open>title\<close>, \<open>author\<close> and \<open>annotation\<close>.\<close>

record metadata =
  title :: string
  author :: string
  annotation :: string

definition metadata_prompt :: "string \<Rightarrow> string list \<Rightarrow> string" where
  \<open>metadata_prompt topic chapters =
     ''\<newline>'' @
     ''        Create metadata for a book on the topic "'' @ topic @ ''" with the following chapters:\<newline>'' @
     ''        '' @ str_join '', '' chapters @ ''\<newline>'' @
     ''        \<newline>'' @
     ''        The metadata should include:\<newline>'' @
     ''        1. A professional book title (without quotes)\<newline>'' @
     ''        2. A fictional first and last name for the author\<newline>'' @
     ''        3. A brief book annotation (150-200 words)\<newline>'' @
     ''        \<newline>'' @
     ''        Response format:\<newline>'' @
     ''        Title: [book title]\<newline>'' @
     ''        Author: [first and last name]\<newline>'' @
     ''        Annotation: [annotation text]\<newline>'' @
     ''        ''\<close>

text \<open>The body of \<open>for line in lines\<close>.\<close>

definition metadata_line :: "metadata \<Rightarrow> string \<Rightarrow> metadata" where
  "metadata_line metadata line =
     (if startswith line ''Title:'' then
        metadata\<lparr>title := str_strip (str_replace line ''Title:'' [])\<rparr>
      else if startswith line ''Author:'' then
        metadata\<lparr>author := str_strip (str_replace line ''Author:'' [])\<rparr>
      else if startswith line ''Annotation:'' then
        metadata\<lparr>annotation := str_strip (str_replace line ''Annotation:'' [])\<rparr>
      else if annotation metadata \<noteq> [] then
        metadata\<lparr>annotation := annotation metadata @ '' '' @ str_strip line\<rparr>
      else metadata)"

definition default_metadata :: "string \<Rightarrow> metadata" where
  "default_metadata topic =
     \<lparr>title = ''Book on '' @ topic, author = ''Author Not Specified'', annotation = []\<rparr>"

text \<open>Lines 180 to 196: from the value the request returned to the metadata.\<close>

definition parse_metadata :: "string \<Rightarrow> py_value \<Rightarrow> error + metadata" where
  "parse_metadata topic response =
     (if truthy response then
        (case str_method response of
           Inl e \<Rightarrow> Inl e
         | Inr text \<Rightarrow>
             Inr (foldl metadata_line (default_metadata topic) (str_split CHR 0x0A (str_strip text))))
      else Inr (default_metadata topic))"

definition generate_metadata ::
  "('s \<Rightarrow> string \<Rightarrow> post_result \<times> 's) \<Rightarrow> string \<Rightarrow> string list \<Rightarrow> 's world
     \<Rightarrow> error + (metadata \<times> 's world)" where
  "generate_metadata post topic chapters w =
     (let (response, w1) = make_request post (metadata_prompt topic chapters) 3 5 w
      in case parse_metadata topic response of
           Inl e \<Rightarrow> Inl e
         | Inr metadata \<Rightarrow> Inr (metadata, w1))"

subsection \<open>\<open>generate_introduction\<close>, \<open>generate_conclusion\<close>, \<open>generate_bibliography\<close>\<close>

definition introduction_prompt :: "string \<Rightarrow> string list \<Rightarrow> metadata \<Rightarrow> string" where
  \<open>introduction_prompt topic chapters metadata =
     ''\<newline>'' @
     ''        Write a professional introduction to the book "'' @ title metadata @ ''" on the topic "'' @ topic @ ''".\<newline>'' @
     ''        \<newline>'' @
     ''        Book structure:\<newline>'' @
     ''        '' @ str_join '', '' chapters @ ''\<newline>'' @
     ''        \<newline>'' @
     ''        The introduction should:\<newline>'' @
     ''        1. Capture the reader's attention\<newline>'' @
     ''        2. Explain the relevance of the topic\<newline>'' @
     ''        3. Briefly describe the structure of the book\<newline>'' @
     ''        4. Specify the target audience\<newline>'' @
     ''        5. Be approximately 800-1000 words in length\<newline>'' @
     ''        ''\<close>

definition generate_introduction ::
  "('s \<Rightarrow> string \<Rightarrow> post_result \<times> 's) \<Rightarrow> string \<Rightarrow> string list \<Rightarrow> metadata \<Rightarrow> 's world
     \<Rightarrow> py_value \<times> 's world" where
  "generate_introduction post topic chapters metadata w =
     make_request post (introduction_prompt topic chapters metadata) 3 5 w"

definition conclusion_prompt :: "string \<Rightarrow> string list \<Rightarrow> metadata \<Rightarrow> string" where
  \<open>conclusion_prompt topic chapters metadata =
     ''\<newline>'' @
     ''        Write a professional conclusion to the book "'' @ title metadata @ ''" on the topic "'' @ topic @ ''".\<newline>'' @
     ''        \<newline>'' @
     ''        Book structure:\<newline>'' @
     ''        '' @ str_join '', '' chapters @ ''\<newline>'' @
     ''        \<newline>'' @
     ''        The conclusion should:\<newline>'' @
     ''        1. Summarize all the material\<newline>'' @
     ''        2. Consolidate the key ideas from all chapters\<newline>'' @
     ''        3. Propose directions for further study\<newline>'' @
     ''        4. End with a strong concluding statement\<newline>'' @
     ''        5. Be approximately 800-1000 words in length\<newline>'' @
     ''        ''\<close>

definition generate_conclusion ::
  "('s \<Rightarrow> string \<Rightarrow> post_result \<times> 's) \<Rightarrow> string \<Rightarrow> string list \<Rightarrow> metadata \<Rightarrow> 's world
     \<Rightarrow> py_value \<times> 's world" where
  "generate_conclusion post topic chapters metadata w =
     make_request post (conclusion_prompt topic chapters metadata) 3 5 w"

definition bibliography_prompt :: "string \<Rightarrow> string" where
  \<open>bibliography_prompt topic =
     ''\<newline>'' @
     ''        Create a list of 10-15 professional bibliographic sources for a book on the topic "'' @ topic @ ''".\<newline>'' @
     ''        \<newline>'' @
     ''        The sources should:\<newline>'' @
     ''        1. Be real, current, and relevant to the topic\<newline>'' @
     ''        2. Include books, scholarly articles, and studies\<newline>'' @
     ''        3. Be formatted in academic style\<newline>'' @
     ''        4. Include author names, publication year, title, and publisher\<newline>'' @
     ''        \<newline>'' @
     ''        Return only the bibliographic entries, one per line.\<newline>'' @
     ''        ''\<close>

definition generate_bibliography ::
  "('s \<Rightarrow> string \<Rightarrow> post_result \<times> 's) \<Rightarrow> string \<Rightarrow> 's world
     \<Rightarrow> error + (string list \<times> 's world)" where
  "generate_bibliography post topic w =
     (let (response, w1) = make_request post (bibliography_prompt topic) 3 5 w
      in if truthy response then
           (case str_method response of
              Inl e \<Rightarrow> Inl e
            | Inr text \<Rightarrow> Inr (stripped_lines text, w1))
         else Inr ([], w1))"

section \<open>The orchestrator: \<open>generate_book\<close>\<close>

text \<open>
  \<open>json.dump(metadata, f, ensure_ascii=False, indent=4)\<close>: the quote, the backslash
  and the control characters below 0x20 are escaped, all else is written as it is.
\<close>

definition hex_char :: "nat \<Rightarrow> char" where
  "hex_char d = ''0123456789abcdef'' ! (d mod 16)"

definition json_escape_char :: "char \<Rightarrow> string" where
  "json_escape_char c =
     (if c = CHR 0x22 then [CHR 0x5C, CHR 0x22]
      else if c = CHR 0x5C then [CHR 0x5C, CHR 0x5C]
      else if c = CHR 0x0A then [CHR 0x5C, CHR ''n'']
      else if c = CHR 0x0D then [CHR 0x5C, CHR ''r'']
      else if c = CHR 0x09 then [CHR 0x5C, CHR ''t'']
      else if c = CHR 0x08 then [CHR 0x5C, CHR ''b'']
      else if c = CHR 0x0C then [CHR 0x5C, CHR ''f'']
      else if (of_char c :: nat) < 32 then
        [CHR 0x5C, CHR ''u'', CHR ''0'', CHR ''0'', hex_char (of_char c div 16), hex_char (of_char c)]
      else [c])"

definition json_string :: "string \<Rightarrow> string" where
  "json_string s = [CHR 0x22] @ concat (map json_escape_char s) @ [CHR 0x22]"

definition json_dump :: "metadata \<Rightarrow> string" where
  \<open>json_dump metadata =
     ''{\<newline>'' @
     ''    "title": '' @ json_string (title metadata) @ '',\<newline>'' @
     ''    "author": '' @ json_string (author metadata) @ '',\<newline>'' @
     ''    "annotation": '' @ json_string (annotation metadata) @ ''\<newline>'' @
     ''}''\<close>

text \<open>The text written to \<open>README.md\<close> of the book (lines 364 to 373).\<close>

definition book_readme :: "metadata \<Rightarrow> string list \<Rightarrow> string" where
  \<open>book_readme metadata chapters =
     ''# '' @ title metadata @ ''\<newline>\<newline>'' @
     ''**Author:** '' @ author metadata @ ''\<newline>\<newline>'' @
     ''**Annotation:**\<newline>\<newline>'' @ annotation metadata @ ''\<newline>\<newline>'' @
     ''## Contents\<newline>\<newline>'' @
     ''- [Introduction](introduction.md)\<newline>'' @
     concat (map (\<lambda>(i, chapter).
        ''- [Chapter '' @ str_nat i @ '': '' @ chapter @ ''](chapter_'' @ fmt_02d i @ ''/README.md)\<newline>'')
        (enumerate 1 chapters)) @
     ''- [Conclusion](conclusion.md)\<newline>'' @
     ''- [Bibliography](bibliography.md)\<newline>''\<close>

text \<open>The text written to \<open>README.md\<close> of one chapter (lines 387 to 391).\<close>

definition chapter_readme :: "nat \<Rightarrow> string \<Rightarrow> string list \<Rightarrow> string" where
  \<open>chapter_readme i chapter sections =
     ''# Chapter '' @ str_nat i @ '': '' @ chapter @ ''\<newline>\<newline>'' @
     ''## Chapter Contents\<newline>\<newline>'' @
     concat (map (\<lambda>(j, section).
        str_nat j @ ''. ['' @ section @ ''](section_'' @ fmt_02d j @ ''.md)\<newline>'')
        (enumerate 1 sections))\<close>

text \<open>\<open>chapter_dir = f"{output_dir}/chapter_{i:02d}"\<close> (lines 378 and 449).\<close>

definition chapter_dir :: "string \<Rightarrow> nat \<Rightarrow> string" where
  "chapter_dir output_dir i = output_dir @ ''/chapter_'' @ fmt_02d i"

text \<open>
  The trace of a run. Python's \<open>generate_book\<close> returns nothing; the model returns,
  beside the world, the values its local variables took: for every call of
  \<open>generate_chapter_chunk\<close> the arguments and the text returned, and for every
  chapter the arguments of \<open>generate_chapter_structure\<close>, the sections, the
  section calls, the value of \<open>full_chapter_content\<close> after the last section and the
  summary. The trace is output only: nothing reads it.
\<close>

record section_run =
  sr_title :: string
  sr_previous_content :: string
  sr_content :: string

record chapter_run =
  cr_title :: string
  cr_previous_summary :: py_value
  cr_sections :: "string list"
  cr_section_runs :: "section_run list"
  cr_content :: string
  cr_summary :: py_value

text \<open>
  \<open>for j, section in enumerate(sections, 1)\<close> (lines 395 to 409), from the current
  value of \<open>full_chapter_content\<close>; \<open>dir\<close> is the chapter's directory. The line
  \<open>full_chapter_content += section_content\<close> raises when the section is not a
  string.
\<close>

fun section_loop ::
  "('s \<Rightarrow> string \<Rightarrow> post_result \<times> 's) \<Rightarrow> string \<Rightarrow> string \<Rightarrow> (nat \<times> string) list \<Rightarrow> string
     \<Rightarrow> 's world \<Rightarrow> error + (string \<times> section_run list \<times> 's world)" where
  "section_loop post dir chapter [] full_chapter_content w = Inr (full_chapter_content, [], w)"
| "section_loop post dir chapter ((j, section) # rest) full_chapter_content w =
     (let previous_content =
            (if full_chapter_content \<noteq> [] then slice_from full_chapter_content (- 1000) else []);
          (section_content, w1) = generate_chapter_chunk post chapter section previous_content w
      in case str_operand section_content of
           Inl e \<Rightarrow> Inl e
         | Inr section_text \<Rightarrow>
             (let full_chapter_content' = full_chapter_content @ section_text;
                  w2 = write_file (dir @ ''/section_'' @ fmt_02d j @ ''.md'')
                         (''## '' @ section @ ''\<newline>\<newline>'' @ section_text) w1;
                  w3 = sleep 1 w2
              in case section_loop post dir chapter rest full_chapter_content' w3 of
                   Inl e \<Rightarrow> Inl e
                 | Inr (full, runs, w') \<Rightarrow>
                     Inr (full,
                          \<lparr>sr_title = section, sr_previous_content = previous_content,
                           sr_content = section_text\<rparr> # runs,
                          w')))"

text \<open>
  The body of \<open>for i, chapter in enumerate(chapters, 1)\<close> (lines 377 to 417):
  one chapter, from the current value of \<open>previous_summary\<close>. The summary it
  computes is the next value of \<open>previous_summary\<close>.
\<close>

definition chapter_body ::
  "('s \<Rightarrow> string \<Rightarrow> post_result \<times> 's) \<Rightarrow> string \<Rightarrow> nat \<Rightarrow> string \<Rightarrow> py_value
     \<Rightarrow> 's world \<Rightarrow> error + (chapter_run \<times> 's world)" where
  "chapter_body post output_dir i chapter previous_summary w =
     (case generate_chapter_structure post chapter previous_summary w of
        Inl e \<Rightarrow> Inl e
      | Inr (sections, w1) \<Rightarrow>
          (let w2 = write_file (chapter_dir output_dir i @ ''/README.md'')
                      (chapter_readme i chapter sections) w1
           in case section_loop post (chapter_dir output_dir i) chapter (enumerate 1 sections) [] w2 of
                Inl e \<Rightarrow> Inl e
              | Inr (full_chapter_content, section_runs, w3) \<Rightarrow>
                  (let (summary, w4) = summarize_chapter post full_chapter_content w3;
                       w5 = write_file (chapter_dir output_dir i @ ''/full_chapter.md'')
                              (''# Chapter '' @ str_nat i @ '': '' @ chapter @ ''\<newline>\<newline>'' @
                               full_chapter_content) w4
                   in Inr (\<lparr>cr_title = chapter, cr_previous_summary = previous_summary,
                            cr_sections = sections, cr_section_runs = section_runs,
                            cr_content = full_chapter_content, cr_summary = summary\<rparr>,
                           w5))))"

fun chapter_loop ::
  "('s \<Rightarrow> string \<Rightarrow> post_result \<times> 's) \<Rightarrow> string \<Rightarrow> (nat \<times> string) list \<Rightarrow> py_value
     \<Rightarrow> 's world \<Rightarrow> error + (chapter_run list \<times> 's world)" where
  "chapter_loop post output_dir [] previous_summary w = Inr ([], w)"
| "chapter_loop post output_dir ((i, chapter) # rest) previous_summary w =
     (case chapter_body post output_dir i chapter previous_summary w of
        Inl e \<Rightarrow> Inl e
      | Inr (run, w5) \<Rightarrow>
          (case chapter_loop post output_dir rest (cr_summary run) w5 of
             Inl e \<Rightarrow> Inl e
           | Inr (runs, w') \<Rightarrow> Inr (run # runs, w')))"

text \<open>
  Writing the full book (lines 434 to 464). \<open>f\<close> is the text written to the open file
  so far. The first loop reads every chapter's \<open>full_chapter.md\<close> back, in text mode,
  and writes it followed by an empty line; the second numbers the references from 1.
\<close>

fun write_chapters ::
  "string \<Rightarrow> (nat \<times> string) list \<Rightarrow> 's world \<Rightarrow> string \<Rightarrow> error + string" where
  "write_chapters output_dir [] w f = Inr f"
| "write_chapters output_dir ((i, chapter) # rest) w f =
     (case files w (chapter_dir output_dir i @ ''/full_chapter.md'') of
        None \<Rightarrow> Inl (FileNotFoundError (chapter_dir output_dir i @ ''/full_chapter.md''))
      | Some file_text \<Rightarrow>
          (let chapter_content = universal_newlines file_text
           in write_chapters output_dir rest w (f @ chapter_content @ ''\<newline>\<newline>'')))"

fun write_references :: "(nat \<times> string) list \<Rightarrow> string \<Rightarrow> string" where
  "write_references [] f = f"
| "write_references ((i, ref) # rest) f =
     write_references rest (f @ str_nat i @ ''. '' @ ref @ ''\<newline>'')"

text \<open>
  Opening \<open>full_book.md\<close> for writing empties it before the chapter files are read.
  \<open>f.write(introduction)\<close> and \<open>f.write(conclusion)\<close> raise when the value is not a
  string.
\<close>

definition write_full_book ::
  "string \<Rightarrow> metadata \<Rightarrow> py_value \<Rightarrow> string list \<Rightarrow> py_value \<Rightarrow> string list \<Rightarrow> 's world
     \<Rightarrow> error + 's world" where
  "write_full_book output_dir metadata introduction chapters conclusion bibliography w =
     (let w0 = write_file (output_dir @ ''/full_book.md'') [] w;
          f1 = ''# '' @ title metadata @ ''\<newline>\<newline>'' @
               ''**Author:** '' @ author metadata @ ''\<newline>\<newline>'' @
               ''**Annotation:**\<newline>\<newline>'' @ annotation metadata @ ''\<newline>\<newline>''
      in case str_operand introduction of
           Inl e \<Rightarrow> Inl e
         | Inr introduction_text \<Rightarrow>
             (let f2 = f1 @ ''# Introduction\<newline>\<newline>'' @ introduction_text @ ''\<newline>\<newline>''
              in case write_chapters output_dir (enumerate 1 chapters) w0 f2 of
                   Inl e \<Rightarrow> Inl e
                 | Inr f3 \<Rightarrow>
                     (case str_operand conclusion of
                        Inl e \<Rightarrow> Inl e
                      | Inr conclusion_text \<Rightarrow>
                          (let f4 = f3 @ ''# Conclusion\<newline>\<newline>'' @ conclusion_text @
                                    ''\<newline>\<newline>'';
                               f5 = write_references (enumerate 1 bibliography)
                                      (f4 @ ''# Bibliography\<newline>\<newline>'')
                           in Inr (write_file (output_dir @ ''/full_book.md'') f5 w0)))))"

text \<open>The local variables of \<open>generate_book\<close> at its end.\<close>

record book =
  bk_output_dir :: string
  bk_chapters :: "string list"
  bk_metadata :: metadata
  bk_introduction :: py_value
  bk_chapter_runs :: "chapter_run list"
  bk_conclusion :: py_value
  bk_bibliography :: "string list"

text \<open>
  The output directory (lines 332 to 334): the one given, or a name made of the time
  and the topic. \<open>timestamp\<close> is the text of
  \<open>datetime.now().strftime("%Y%m%d_%H%M%S")\<close>.
\<close>

definition book_dir :: "string \<Rightarrow> string option \<Rightarrow> string \<Rightarrow> string" where
  "book_dir topic output_dir_arg timestamp =
     (case output_dir_arg of
        None \<Rightarrow> ''book_'' @ timestamp @ ''_'' @ slice_to (str_replace topic '' '' ''_'') 30
      | Some d \<Rightarrow> d)"

text \<open>
  \<open>generate_book\<close>, with the trace of its local variables. The f-strings written to
  \<open>introduction.md\<close> and \<open>conclusion.md\<close> take the text of the value, string or
  not.
\<close>

definition generate_book ::
  "('s \<Rightarrow> string \<Rightarrow> post_result \<times> 's) \<Rightarrow> string \<Rightarrow> int \<Rightarrow> string option \<Rightarrow> string \<Rightarrow> 's world
     \<Rightarrow> error + (book \<times> 's world)" where
  "generate_book post topic num_chapters output_dir_arg timestamp w =
     (let output_dir = book_dir topic output_dir_arg timestamp
      in case generate_outline post topic num_chapters w of
           Inl e \<Rightarrow> Inl e
         | Inr (chapters, w1) \<Rightarrow>
      (case generate_metadata post topic chapters w1 of
           Inl e \<Rightarrow> Inl e
         | Inr (metadata, w2) \<Rightarrow>
      (let w3 = write_file (output_dir @ ''/metadata.json'') (json_dump metadata) w2;
           w4 = write_file (output_dir @ ''/outline.txt'') (str_join ''\<newline>'' chapters) w3;
           (introduction, w5) = generate_introduction post topic chapters metadata w4;
           w6 = write_file (output_dir @ ''/introduction.md'')
                  (''# Introduction\<newline>\<newline>'' @ py_str introduction) w5;
           w7 = write_file (output_dir @ ''/README.md'') (book_readme metadata chapters) w6
       in case chapter_loop post output_dir (enumerate 1 chapters) (Str []) w7 of
            Inl e \<Rightarrow> Inl e
          | Inr (chapter_runs, w8) \<Rightarrow>
      (let (conclusion, w9) = generate_conclusion post topic chapters metadata w8;
           w10 = write_file (output_dir @ ''/conclusion.md'')
                   (''# Conclusion\<newline>\<newline>'' @ py_str conclusion) w9
       in case generate_bibliography post topic w10 of
            Inl e \<Rightarrow> Inl e
          | Inr (bibliography, w11) \<Rightarrow>
      (let w12 = write_file (output_dir @ ''/bibliography.md'')
                   (write_references (enumerate 1 bibliography) ''# Bibliography\<newline>\<newline>'') w11
       in case write_full_book output_dir metadata introduction chapters conclusion bibliography w12 of
            Inl e \<Rightarrow> Inl e
          | Inr w13 \<Rightarrow>
              Inr (\<lparr>bk_output_dir = output_dir, bk_chapters = chapters, bk_metadata = metadata,
                    bk_introduction = introduction, bk_chapter_runs = chapter_runs,
                    bk_conclusion = conclusion, bk_bibliography = bibliography\<rparr>, w13))))))"

section \<open>Notions used to state the properties\<close>

text \<open>The number a decimal string stands for: the inverse of the formatting above.\<close>

definition digit_val :: "char \<Rightarrow> nat" where
  "digit_val c = of_char c - 48"

definition digits_val :: "string \<Rightarrow> nat" where
  "digits_val s = foldl (\<lambda>a c. 10 * a + digit_val c) 0 s"

text \<open>A path lies in the directory of chapter \<open>i\<close>; the path of that chapter's full text.\<close>

definition in_chapter_dir :: "string \<Rightarrow> nat \<Rightarrow> string \<Rightarrow> bool" where
  "in_chapter_dir output_dir i path = prefix (chapter_dir output_dir i @ ''/'') path"

definition chapter_file :: "string \<Rightarrow> nat \<Rightarrow> string" where
  "chapter_file output_dir i = chapter_dir output_dir i @ ''/full_chapter.md''"

text \<open>
  The text \<open>generate_book\<close> writes to the file of a chapter: the heading with the
  chapter's number and title, and the chapter's content.
\<close>

definition chapter_text :: "nat \<Rightarrow> string \<Rightarrow> string \<Rightarrow> string" where
  "chapter_text i chapter content =
     ''# Chapter '' @ str_nat i @ '': '' @ chapter @ ''\<newline>\<newline>'' @ content"

text \<open>
  The assembled document as a function of the book's parts alone, in the order the
  specification gives: title page, introduction, the texts of the chapters in outline
  order, conclusion, and the bibliography numbered from 1.
\<close>

definition title_page :: "metadata \<Rightarrow> string" where
  "title_page metadata =
     ''# '' @ title metadata @ ''\<newline>\<newline>'' @
     ''**Author:** '' @ author metadata @ ''\<newline>\<newline>'' @
     ''**Annotation:**\<newline>\<newline>'' @ annotation metadata @ ''\<newline>\<newline>''"

definition numbered_references :: "string list \<Rightarrow> string" where
  "numbered_references bibliography =
     concat (map (\<lambda>(i, ref). str_nat i @ ''. '' @ ref @ ''\<newline>'') (enumerate 1 bibliography))"

definition full_book_text ::
  "metadata \<Rightarrow> string \<Rightarrow> string list \<Rightarrow> string \<Rightarrow> string list \<Rightarrow> string" where
  "full_book_text metadata introduction chapter_texts conclusion bibliography =
     title_page metadata @
     ''# Introduction\<newline>\<newline>'' @ introduction @ ''\<newline>\<newline>'' @
     concat (map (\<lambda>text. text @ ''\<newline>\<newline>'') chapter_texts) @
     ''# Conclusion\<newline>\<newline>'' @ conclusion @ ''\<newline>\<newline>'' @
     ''# Bibliography\<newline>\<newline>'' @ numbered_references bibliography"

text \<open>
  The texts of the chapter files of a run, in outline order, and the document assembled
  from the parts of a generated book: each chapter file enters it as it is read back, in
  text mode.
\<close>

definition chapter_texts :: "string list \<Rightarrow> chapter_run list \<Rightarrow> string list" where
  "chapter_texts chapters runs =
     map (\<lambda>((i, chapter), r). chapter_text i chapter (cr_content r)) (zip (enumerate 1 chapters) runs)"

definition book_text :: "book \<Rightarrow> string" where
  "book_text b =
     full_book_text (bk_metadata b) (py_str (bk_introduction b))
       (map universal_newlines (chapter_texts (bk_chapters b) (bk_chapter_runs b)))
       (py_str (bk_conclusion b)) (bk_bibliography b)"

text \<open>
  A service answers with text when no call of it returns the status 200 with a
  \<open>response\<close> that is not a string. Its calls may still raise, return another status,
  or return a body that cannot be read.
\<close>

fun is_text :: "post_result \<Rightarrow> bool" where
  "is_text PostException = True"
| "is_text (Response status_code None) = True"
| "is_text (Response status_code (Some (Str t))) = True"
| "is_text (Response status_code (Some (Other b t))) = (status_code \<noteq> 200)"

definition text_only :: "('s \<Rightarrow> string \<Rightarrow> post_result \<times> 's) \<Rightarrow> bool" where
  "text_only post = (\<forall>s prompt. is_text (fst (post s prompt)))"

text \<open>
  The fixed parts of three prompts, as the source has them: what follows the context in
  the prompt of a structure request and of a section request, and what follows the
  chapter text in the prompt of a summary request.
\<close>

definition structure_instructions :: "string \<Rightarrow> string" where
  \<open>structure_instructions chapter_title =
     ''\<newline>'' @
     ''        Create a detailed structure for the chapter titled: "'' @ chapter_title @ ''"\<newline>'' @
     ''        \<newline>'' @
     ''        The chapter should have the following structure:\<newline>'' @
     ''        1. Chapter introduction\<newline>'' @
     ''        2. 3-5 logically connected subsections with informative titles\<newline>'' @
     ''        3. Chapter conclusion\<newline>'' @
     ''        \<newline>'' @
     ''        Return only the section titles, one per line, including "Introduction" and "Conclusion".\<newline>'' @
     ''        ''\<close>

definition chunk_instructions :: "string \<Rightarrow> string \<Rightarrow> string" where
  \<open>chunk_instructions chapter_title section_title =
     ''\<newline>'' @
     ''        Write the section "'' @ section_title @ ''" for the book chapter "'' @ chapter_title @ ''"\<newline>'' @
     ''        \<newline>'' @
     ''        Requirements:\<newline>'' @
     ''        1. Length - approximately 500-700 words\<newline>'' @
     ''        2. Academic writing style with professional terminology\<newline>'' @
     ''        3. Substantial arguments supported by facts\<newline>'' @
     ''        4. Logical structure with smooth transitions between paragraphs\<newline>'' @
     ''        5. If this is the introduction, provide an overview of the chapter\<newline>'' @
     ''        6. If this is the conclusion, summarize and link to the next chapter\<newline>'' @
     ''        \<newline>'' @
     ''        Begin writing the section:\<newline>'' @
     ''        ''\<close>

definition summary_requirements :: string where
  \<open>summary_requirements =
     ''...\<newline>'' @
     ''        \<newline>'' @
     ''        The summary should:\<newline>'' @
     ''        1. Cover the key ideas and arguments\<newline>'' @
     ''        2. Highlight the main conclusions\<newline>'' @
     ''        3. Be written in the present tense\<newline>'' @
     ''        4. Serve as a good context for the next chapter\<newline>'' @
     ''        ''\<close>

text \<open>A line that \<open>generate_metadata\<close> recognises by its prefix.\<close>

definition known_label :: "string \<Rightarrow> bool" where
  "known_label line =
     (startswith line ''Title:'' \<or> startswith line ''Author:'' \<or> startswith line ''Annotation:'')"

text \<open>
  The requests one chapter of a run posts first at each of its steps, in order: the
  structure request, one request for each section, and the summary request, each with
  the prompt built from the arguments recorded in the trace.
\<close>

definition chapter_requests :: "chapter_run \<Rightarrow> event list" where
  "chapter_requests r =
     Post (chapter_structure_prompt (cr_title r) (cr_previous_summary r)) #
     map (\<lambda>s. Post (chapter_chunk_prompt (cr_title r) (sr_title s) (sr_previous_content s)))
       (cr_section_runs r) @
     [Post (summary_prompt (cr_content r))]"

text \<open>The text of a chapter accumulated before its section number \<open>k\<close> (from 0).\<close>

definition accumulated_before :: "chapter_run \<Rightarrow> nat \<Rightarrow> string" where
  "accumulated_before r k = concat (map sr_content (take k (cr_section_runs r)))"

section \<open>Services for concrete runs\<close>

text \<open>
  Two services to run the model on: one whose every call raises, and one that replays
  a list of outcomes in order, whatever the prompt, and raises once the list is used up.
\<close>

definition always_raises :: "unit \<Rightarrow> string \<Rightarrow> post_result \<times> unit" where
  "always_raises s prompt = (PostException, s)"

definition scripted :: "post_result list \<Rightarrow> string \<Rightarrow> post_result \<times> post_result list" where
  "scripted s prompt = (case s of [] \<Rightarrow> (PostException, []) | r # rs \<Rightarrow> (r, rs))"

text \<open>A service that answers with text only: it replays a list of texts, \<open>None\<close> for a failing call.\<close>

definition scripted_text :: "string option list \<Rightarrow> string \<Rightarrow> post_result \<times> string option list" where
  "scripted_text s prompt =
     (case s of
        [] \<Rightarrow> (PostException, [])
      | None # rs \<Rightarrow> (Response 500 None, rs)
      | Some t # rs \<Rightarrow> (Response 200 (Some (Str t)), rs))"

definition world0 :: "'s \<Rightarrow> 's world" where
  "world0 s = \<lparr>service = s, events = [], files = Map.empty\<rparr>"

text \<open>
  Two scripts for a book of two chapters. The second has other section texts, another
  title, two failing attempts and too few responses for the conclusion and the
  bibliography, and gives the same summary of the first chapter.
\<close>

definition script1 :: "post_result list" where
  "script1 =
     [Response 200 (Some (Str ''A\<newline>B'')),
      Response 200 (Some (Str ''Title: X'')),
      Response 200 (Some (Str ''I'')),
      Response 200 (Some (Str ''S1\<newline>S2'')),
      Response 200 (Some (Str ''alpha'')),
      Response 200 (Some (Str ''beta'')),
      Response 200 (Some (Str ''sumA'')),
      Response 200 (Some (Str ''S'')),
      Response 200 (Some (Str ''gamma'')),
      Response 200 (Some (Str ''sumB'')),
      Response 200 (Some (Str ''C'')),
      Response 200 (Some (Str ''R1\<newline>R2''))]"

definition script2 :: "post_result list" where
  "script2 =
     [Response 200 (Some (Str ''A\<newline>B'')),
      PostException,
      Response 200 (Some (Str ''Title: Y'')),
      Response 200 (Some (Str ''J'')),
      Response 200 (Some (Str ''S'')),
      Response 200 (Some (Str ''delta'')),
      Response 200 (Some (Str ''sumA'')),
      Response 500 None,
      Response 200 (Some (Str ''S'')),
      Response 200 (Some (Str ''epsilon'')),
      Response 200 (Some (Str ''sumC''))]"

text \<open>
  The two chapter files of a book, to assemble it from; the second holds a carriage
  return and a Windows line end.
\<close>

definition two_chapter_files :: "string \<rightharpoonup> string" where
  "two_chapter_files =
     [''out/chapter_01/full_chapter.md'' \<mapsto> ''# Chapter 1: A\<newline>\<newline>alpha'',
      ''out/chapter_02/full_chapter.md'' \<mapsto>
         ''# Chapter 2: B\<newline>\<newline>be'' @ [CHR 0x0D] @ ''ta'' @ [CHR 0x0D, CHR 0x0A] @ ''gamma'']"

section \<open>The request layer gives up after its attempts\<close>

lemma attempts_failed_step:
  "failed (fst (post (service w) prompt)) \<Longrightarrow>
   attempts post prompt m d (a # rest) w =
     attempts post prompt m d rest
       (backoff a m d (w\<lparr>service := snd (post (service w) prompt), events := events w @ [Post prompt]\<rparr>))"
  by (cases "post (service w) prompt") (auto simp: Let_def split: post_result.splits option.splits)

lemma upt_0_3: "[0..<3] = [0, 1, 2::nat]"
  by (simp add: upt_rec)

text \<open>
  C4. When every attempt fails (the first from the service's state at the call, each
  further one from the state the attempt before left), \<open>_make_request\<close> with
  \<open>max_retries = 3\<close> posts the prompt exactly three times, sleeps \<open>retry_delay\<close>
  between consecutive attempts (and not after the last), and returns the empty string;
  it is a total function, so nothing is raised to the caller.
\<close>

theorem make_request_exhausted:
  assumes "failed (fst (post (service w) prompt))"
    and "failed (fst (post (snd (post (service w) prompt)) prompt))"
    and "failed (fst (post (snd (post (snd (post (service w) prompt)) prompt)) prompt))"
  shows "make_request post prompt 3 retry_delay w =
     (Str [], w\<lparr>service := ((\<lambda>s. snd (post s prompt)) ^^ 3) (service w),
                events := events w @
                  [Post prompt, Sleep retry_delay, Post prompt, Sleep retry_delay, Post prompt]\<rparr>)"
proof -
  let ?w1 = "backoff 0 3 retry_delay
    (w\<lparr>service := snd (post (service w) prompt), events := events w @ [Post prompt]\<rparr>)"
  let ?w2 = "backoff 1 3 retry_delay
    (?w1\<lparr>service := snd (post (service ?w1) prompt), events := events ?w1 @ [Post prompt]\<rparr>)"
  let ?w3 = "backoff 2 3 retry_delay
    (?w2\<lparr>service := snd (post (service ?w2) prompt), events := events ?w2 @ [Post prompt]\<rparr>)"
  have s1: "service ?w1 = snd (post (service w) prompt)"
    by (simp add: backoff_def sleep_def)
  have s2: "service ?w2 = snd (post (snd (post (service w) prompt)) prompt)"
    by (simp add: backoff_def sleep_def)
  have "attempts post prompt 3 retry_delay [0, 1, 2] w =
        attempts post prompt 3 retry_delay [1, 2] ?w1"
    by (rule attempts_failed_step) (rule assms(1))
  also have "\<dots> = attempts post prompt 3 retry_delay [2] ?w2"
    by (rule attempts_failed_step) (simp only: s1 assms(2))
  also have "\<dots> = attempts post prompt 3 retry_delay [] ?w3"
    by (rule attempts_failed_step) (simp only: s2 assms(3))
  finally show ?thesis
    unfolding make_request_def upt_0_3
    by (simp add: backoff_def sleep_def funpow_simps_right eval_nat_numeral)
qed

theorem make_request_exhausted_witness:
  "make_request scripted ''p'' 3 5
     (world0 [PostException, Response 500 None, Response 200 None, Response 200 (Some (Str ''late''))]) =
   (Str [], \<lparr>service = [Response 200 (Some (Str ''late''))],
            events = [Post ''p'', Sleep 5, Post ''p'', Sleep 5, Post ''p''],
            files = Map.empty\<rparr>)"
  using make_request_exhausted [of scripted
    "world0 [PostException, Response 500 None, Response 200 None, Response 200 (Some (Str ''late''))]"
    "''p''" 5]
  by (simp add: scripted_def world0_def eval_nat_numeral)

section \<open>Decimal formatting is injective\<close>

lemma upt_0_10: "[0..<10] = [0, 1, 2, 3, 4, 5, 6, 7, 8, 9::nat]"
  by (simp add: upt_rec)

lemma digit_all:
  "\<forall>k \<in> set [0..<10]. digit_val (digit_char k) = k \<and> digit_char k \<in> set ''0123456789''"
  unfolding upt_0_10 by (simp add: digit_val_def digit_char_def)

lemma digit_val_digit_char: "k < 10 \<Longrightarrow> digit_val (digit_char k) = k"
  using digit_all by simp

lemma digit_char_digit: "digit_char k \<in> set ''0123456789''"
proof -
  have "digit_char k = digit_char (k mod 10)" by (simp add: digit_char_def)
  moreover have "digit_char (k mod 10) \<in> set ''0123456789''"
    using digit_all by simp
  ultimately show ?thesis by simp
qed

lemma str_nat_digits: "set (str_nat n) \<subseteq> set ''0123456789''"
proof (induction n rule: str_nat.induct)
  case (1 n)
  show ?case
  proof (cases "n < 10")
    case True
    then show ?thesis using digit_char_digit [of n] by (subst str_nat.simps) simp
  next
    case False
    then show ?thesis
      using 1 digit_char_digit [of "n mod 10"] by (subst str_nat.simps) simp
  qed
qed

lemma digits_val_snoc: "digits_val (s @ [c]) = 10 * digits_val s + digit_val c"
  by (simp add: digits_val_def)

lemma digits_val_str_nat: "digits_val (str_nat n) = n"
proof (induction n rule: str_nat.induct)
  case (1 n)
  show ?case
  proof (cases "n < 10")
    case True
    then show ?thesis
      by (subst str_nat.simps) (simp add: digits_val_def digit_val_digit_char)
  next
    case False
    then show ?thesis
      using 1 by (subst str_nat.simps) (simp add: digits_val_snoc digit_val_digit_char)
  qed
qed

lemma digits_val_zeros: "digits_val (replicate k CHR ''0'' @ s) = digits_val s"
proof -
  have "foldl (\<lambda>a c. 10 * a + digit_val c) 0 (replicate k CHR ''0'') = 0"
    by (induction k) (simp_all add: digit_val_def)
  then show ?thesis by (simp add: digits_val_def)
qed

lemma digits_val_fmt_02d: "digits_val (fmt_02d i) = i"
  by (simp add: fmt_02d_def digits_val_zeros digits_val_str_nat)

lemma fmt_02d_inj: "fmt_02d i = fmt_02d j \<Longrightarrow> i = j"
  using digits_val_fmt_02d by metis

lemma fmt_02d_digits: "set (fmt_02d i) \<subseteq> set ''0123456789''"
  using str_nat_digits [of i] by (auto simp: fmt_02d_def)

lemma str_nat_not_Nil: "str_nat n \<noteq> []"
  by (subst str_nat.simps) simp

lemma fmt_02d_not_Nil: "fmt_02d i \<noteq> []"
  by (simp add: fmt_02d_def str_nat_not_Nil)

section \<open>Requests leave the files alone\<close>

lemma attempts_files: "files (snd (attempts post p m d as w)) = files w"
  by (induction as arbitrary: w)
     (auto simp: backoff_def sleep_def Let_def split: prod.splits post_result.splits option.splits)

lemma make_request_files: "files (snd (make_request post p m d w)) = files w"
  by (simp add: make_request_def attempts_files)

lemma make_request_files': "make_request post p m d w = (r, w') \<Longrightarrow> files w' = files w"
  using make_request_files [of post p m d w] by simp

lemma generate_outline_files:
  "generate_outline post topic n w = Inr (cs, w') \<Longrightarrow> files w' = files w"
  by (auto simp: generate_outline_def Let_def
        split: prod.splits if_splits sum.splits dest!: make_request_files')

lemma generate_metadata_world:
  "generate_metadata post topic cs w = Inr (m, w') \<Longrightarrow>
   w' = snd (make_request post (metadata_prompt topic cs) 3 5 w)"
  by (auto simp: generate_metadata_def Let_def split: prod.splits sum.splits)

lemma generate_chapter_structure_world:
  "generate_chapter_structure post c p w = Inr (secs, w') \<Longrightarrow>
   w' = snd (make_request post (chapter_structure_prompt c p) 3 5 w)"
  by (auto simp: generate_chapter_structure_def Let_def split: prod.splits if_splits sum.splits)

lemma generate_bibliography_world:
  "generate_bibliography post topic w = Inr (bib, w') \<Longrightarrow>
   w' = snd (make_request post (bibliography_prompt topic) 3 5 w)"
  by (auto simp: generate_bibliography_def Let_def split: prod.splits if_splits sum.splits)

lemma generate_chapter_chunk_files: "files (snd (generate_chapter_chunk post c s p w)) = files w"
  by (simp add: generate_chapter_chunk_def make_request_files)

lemma summarize_chapter_files: "files (snd (summarize_chapter post c w)) = files w"
  by (simp add: summarize_chapter_def make_request_files)

lemma generate_introduction_files: "files (snd (generate_introduction post t cs m w)) = files w"
  by (simp add: generate_introduction_def make_request_files)

lemma generate_conclusion_files: "files (snd (generate_conclusion post t cs m w)) = files w"
  by (simp add: generate_conclusion_def make_request_files)

lemma files_write_file: "files (write_file p c w) = (files w)(p \<mapsto> c)"
  by (simp add: write_file_def)

lemma files_sleep: "files (sleep n w) = files w"
  by (simp add: sleep_def)

lemmas stage_files = make_request_files generate_chapter_chunk_files summarize_chapter_files
  generate_introduction_files generate_conclusion_files files_write_file files_sleep

section \<open>What a returning loop has done\<close>

lemma str_operand_Inr: "str_operand v = Inr t \<longleftrightarrow> v = Str t"
  by (cases v) auto

lemma str_method_Inr: "str_method v = Inr t \<longleftrightarrow> v = Str t"
  by (cases v) auto

lemma section_loop_Cons:
  assumes "section_loop post d ch ((j, s) # secs) full w = Inr (full', runs, w')"
  shows "\<exists>t runs'.
     fst (generate_chapter_chunk post ch s (if full \<noteq> [] then slice_from full (- 1000) else []) w) =
       Str t \<and>
     section_loop post d ch secs (full @ t)
       (sleep 1 (write_file (d @ ''/section_'' @ fmt_02d j @ ''.md'') (''## '' @ s @ ''\<newline>\<newline>'' @ t)
          (snd (generate_chapter_chunk post ch s
                  (if full \<noteq> [] then slice_from full (- 1000) else []) w)))) =
       Inr (full', runs', w') \<and>
     runs = \<lparr>sr_title = s,
             sr_previous_content = (if full \<noteq> [] then slice_from full (- 1000) else []),
             sr_content = t\<rparr> # runs'"
  using assms
  by (simp add: Let_def split_beta str_operand_Inr split: sum.splits) auto

lemma chapter_body_Inr:
  assumes "chapter_body post out i ch prev w = Inr (r, w')"
  shows "\<exists>secs w1 full runs w3.
     generate_chapter_structure post ch prev w = Inr (secs, w1) \<and>
     section_loop post (chapter_dir out i) ch (enumerate 1 secs) []
       (write_file (chapter_dir out i @ ''/README.md'') (chapter_readme i ch secs) w1) =
       Inr (full, runs, w3) \<and>
     r = \<lparr>cr_title = ch, cr_previous_summary = prev, cr_sections = secs,
          cr_section_runs = runs, cr_content = full,
          cr_summary = fst (summarize_chapter post full w3)\<rparr> \<and>
     w' = write_file (chapter_dir out i @ ''/full_chapter.md'')
            (''# Chapter '' @ str_nat i @ '': '' @ ch @ ''\<newline>\<newline>'' @ full)
            (snd (summarize_chapter post full w3))"
  using assms
  by (auto simp: chapter_body_def Let_def split_beta split: sum.splits)

lemma chapter_loop_Cons:
  assumes "chapter_loop post out ((i, ch) # xs) prev w = Inr (runs, w')"
  shows "\<exists>r w5 runs'.
     chapter_body post out i ch prev w = Inr (r, w5) \<and>
     chapter_loop post out xs (cr_summary r) w5 = Inr (runs', w') \<and>
     runs = r # runs'"
  using assms by (auto split: sum.splits)

section \<open>The files of one chapter lie in its directory\<close>

lemma prefix_sep:
  "c \<notin> set a \<Longrightarrow> c \<notin> set b \<Longrightarrow> prefix (a @ c # r) (b @ c # s) \<Longrightarrow> a = b"
proof (induction a arbitrary: b)
  case Nil
  then show ?case by (cases b) auto
next
  case (Cons x a)
  then show ?case by (cases b) auto
qed

lemma slash_notin_fmt_02d: "CHR ''/'' \<notin> set (fmt_02d i)"
  using fmt_02d_digits [of i] by auto

lemma in_chapter_dir_chapter_file: "in_chapter_dir out i (chapter_file out j) \<longleftrightarrow> i = j"
proof
  assume "in_chapter_dir out i (chapter_file out j)"
  then have "prefix (fmt_02d i @ CHR ''/'' # []) (fmt_02d j @ CHR ''/'' # ''full_chapter.md'')"
    by (simp add: in_chapter_dir_def chapter_file_def chapter_dir_def)
  then have "fmt_02d i = fmt_02d j"
    by (rule prefix_sep [OF slash_notin_fmt_02d slash_notin_fmt_02d])
  then show "i = j" by (rule fmt_02d_inj)
next
  assume "i = j"
  then show "in_chapter_dir out i (chapter_file out j)"
    by (simp add: in_chapter_dir_def chapter_file_def)
qed

lemma section_loop_files:
  "section_loop post d ch secs full w = Inr (full', runs, w') \<Longrightarrow>
   \<not> prefix (d @ ''/section_'') p \<Longrightarrow> files w' p = files w p"
proof (induction secs arbitrary: full w runs)
  case Nil
  then show ?case by simp
next
  case (Cons a secs)
  obtain j s where a: "a = (j, s)" by (cases a)
  have ne: "d @ ''/section_'' @ fmt_02d j @ ''.md'' \<noteq> p"
    using Cons.prems(2) by (auto simp: prefix_def)
  from section_loop_Cons [OF Cons.prems(1) [unfolded a]] obtain t runs' where
    rest: "section_loop post d ch secs (full @ t)
       (sleep 1 (write_file (d @ ''/section_'' @ fmt_02d j @ ''.md'') (''## '' @ s @ ''\<newline>\<newline>'' @ t)
          (snd (generate_chapter_chunk post ch s
                  (if full \<noteq> [] then slice_from full (- 1000) else []) w)))) =
       Inr (full', runs', w')"
    by blast
  from Cons.IH [OF rest Cons.prems(2)] show ?case
    using ne by (simp add: stage_files del: append_assoc)
qed

lemma not_in_dir_not_section:
  "\<not> in_chapter_dir out i p \<Longrightarrow> \<not> prefix (chapter_dir out i @ ''/section_'') p"
  by (auto simp: in_chapter_dir_def prefix_def)

lemma not_in_dir_neq:
  assumes "\<not> in_chapter_dir out i p"
  shows "chapter_dir out i @ CHR ''/'' # rest \<noteq> p" and "p \<noteq> chapter_dir out i @ CHR ''/'' # rest"
  using assms by (auto simp: in_chapter_dir_def prefix_def)

lemma chapter_body_frame:
  assumes "chapter_body post out i ch prev w = Inr (r, w')"
    and "\<not> in_chapter_dir out i p"
  shows "files w' p = files w p"
proof -
  from chapter_body_Inr [OF assms(1)] obtain secs w1 full runs w3 where
    g: "generate_chapter_structure post ch prev w = Inr (secs, w1)"
    and sl: "section_loop post (chapter_dir out i) ch (enumerate 1 secs) []
       (write_file (chapter_dir out i @ ''/README.md'') (chapter_readme i ch secs) w1) =
       Inr (full, runs, w3)"
    and w': "w' = write_file (chapter_dir out i @ ''/full_chapter.md'')
            (''# Chapter '' @ str_nat i @ '': '' @ ch @ ''\<newline>\<newline>'' @ full)
            (snd (summarize_chapter post full w3))"
    by blast
  have "files w1 = files w"
    using generate_chapter_structure_world [OF g] by (simp add: stage_files)
  moreover have "files w3 p =
      files (write_file (chapter_dir out i @ ''/README.md'') (chapter_readme i ch secs) w1) p"
    by (rule section_loop_files [OF sl not_in_dir_not_section [OF assms(2)]])
  ultimately show ?thesis
    by (simp add: w' stage_files not_in_dir_neq [OF assms(2)])
qed

lemma chapter_body_file:
  assumes "chapter_body post out i ch prev w = Inr (r, w')"
  shows "files w' (chapter_file out i) = Some (chapter_text i ch (cr_content r))"
  using chapter_body_Inr [OF assms]
  by (auto simp: stage_files chapter_file_def chapter_text_def)

lemma chapter_body_title:
  assumes "chapter_body post out i ch prev w = Inr (r, w')"
  shows "cr_title r = ch" and "cr_previous_summary r = prev"
  using chapter_body_Inr [OF assms] by auto

lemma chapter_loop_frame:
  "chapter_loop post out xs prev w = Inr (runs, w') \<Longrightarrow>
   \<forall>i \<in> set (map fst xs). \<not> in_chapter_dir out i p \<Longrightarrow> files w' p = files w p"
proof (induction xs arbitrary: prev w runs)
  case Nil
  then show ?case by simp
next
  case (Cons a xs)
  obtain i ch where a: "a = (i, ch)" by (cases a)
  from chapter_loop_Cons [OF Cons.prems(1) [unfolded a]] obtain r w5 runs' where
    b: "chapter_body post out i ch prev w = Inr (r, w5)"
    and l: "chapter_loop post out xs (cr_summary r) w5 = Inr (runs', w')"
    by blast
  have "files w' p = files w5 p"
    using Cons.prems(2) by (intro Cons.IH [OF l]) simp
  moreover have "files w5 p = files w p"
    using Cons.prems(2) by (intro chapter_body_frame [OF b]) (simp add: a)
  ultimately show ?case by simp
qed

lemma chapter_loop_length:
  "chapter_loop post out xs prev w = Inr (runs, w') \<Longrightarrow> length runs = length xs"
proof (induction xs arbitrary: prev w runs)
  case Nil
  then show ?case by simp
next
  case (Cons a xs)
  obtain i ch where a: "a = (i, ch)" by (cases a)
  from chapter_loop_Cons [OF Cons.prems [unfolded a]] Cons.IH show ?case by auto
qed

lemma chapter_loop_titles:
  "chapter_loop post out xs prev w = Inr (runs, w') \<Longrightarrow> map cr_title runs = map snd xs"
proof (induction xs arbitrary: prev w runs)
  case Nil
  then show ?case by simp
next
  case (Cons a xs)
  obtain i ch where a: "a = (i, ch)" by (cases a)
  from chapter_loop_Cons [OF Cons.prems [unfolded a]] Cons.IH show ?case
    by (auto simp: a chapter_body_title)
qed

lemma chapter_loop_chapter_files:
  "chapter_loop post out xs prev w = Inr (runs, w') \<Longrightarrow> distinct (map fst xs) \<Longrightarrow>
   map (\<lambda>a. files w' (chapter_file out (fst a))) xs =
   map (\<lambda>a. Some (chapter_text (fst (fst a)) (snd (fst a)) (cr_content (snd a)))) (zip xs runs)"
proof (induction xs arbitrary: prev w runs)
  case Nil
  then show ?case by simp
next
  case (Cons a xs)
  obtain i ch where a: "a = (i, ch)" by (cases a)
  from chapter_loop_Cons [OF Cons.prems(1) [unfolded a]] obtain r w5 runs' where
    b: "chapter_body post out i ch prev w = Inr (r, w5)"
    and l: "chapter_loop post out xs (cr_summary r) w5 = Inr (runs', w')"
    and runs: "runs = r # runs'"
    by blast
  have notin: "\<forall>j \<in> set (map fst xs). \<not> in_chapter_dir out j (chapter_file out i)"
    using Cons.prems(2) by (auto simp: a in_chapter_dir_chapter_file)
  have here: "files w' (chapter_file out i) = Some (chapter_text i ch (cr_content r))"
    using chapter_loop_frame [OF l notin] chapter_body_file [OF b] by simp
  have rest: "map (\<lambda>a. files w' (chapter_file out (fst a))) xs =
     map (\<lambda>a. Some (chapter_text (fst (fst a)) (snd (fst a)) (cr_content (snd a)))) (zip xs runs')"
    using Cons.prems(2) by (intro Cons.IH [OF l]) simp
  show ?case
    using here rest by (simp add: a runs)
qed

section \<open>Writing the full book\<close>

lemma write_references_eq:
  "write_references xs f = f @ concat (map (\<lambda>a. str_nat (fst a) @ ''. '' @ snd a @ ''\<newline>'') xs)"
  by (induction xs arbitrary: f) (auto simp: split_beta)

lemma write_chapters_ok:
  "map (\<lambda>a. files w (chapter_file out (fst a))) xs = map Some ts \<Longrightarrow>
   write_chapters out xs w f =
     Inr (f @ concat (map (\<lambda>t. universal_newlines t @ ''\<newline>\<newline>'') ts))"
proof (induction xs arbitrary: ts f)
  case Nil
  then show ?case by simp
next
  case (Cons a xs)
  obtain i ch where a: "a = (i, ch)" by (cases a)
  obtain t ts' where ts: "ts = t # ts'" using Cons.prems by (cases ts) auto
  have t: "files w (chapter_dir out i @ ''/full_chapter.md'') = Some t"
    using Cons.prems by (simp add: a ts chapter_file_def)
  have "map (\<lambda>a. files w (chapter_file out (fst a))) xs = map Some ts'"
    using Cons.prems by (simp add: ts)
  from Cons.IH [OF this] show ?case
    by (simp add: a ts t)
qed

lemma chapter_file_neq_top:
  "chapter_file out i \<noteq> out @ ''/full_book.md''"
  "chapter_file out i \<noteq> out @ ''/conclusion.md''"
  "chapter_file out i \<noteq> out @ ''/bibliography.md''"
  by (simp_all add: chapter_file_def chapter_dir_def)

lemma write_full_book_ok:
  assumes "map (\<lambda>a. files w (chapter_file out (fst a))) (enumerate 1 chapters) = map Some texts"
  shows "write_full_book out m (Str intro) chapters (Str concl) bib w =
     Inr (write_file (out @ ''/full_book.md'')
            (full_book_text m intro (map universal_newlines texts) concl bib) w)"
proof -
  let ?w0 = "write_file (out @ ''/full_book.md'') [] w"
  have "map (\<lambda>a. files ?w0 (chapter_file out (fst a))) (enumerate 1 chapters) = map Some texts"
    using assms by (simp add: files_write_file chapter_file_neq_top)
  from write_chapters_ok [OF this] show ?thesis
    by (simp add: write_full_book_def Let_def full_book_text_def title_page_def
          numbered_references_def write_references_eq write_file_def case_prod_unfold comp_def)
qed

section \<open>The trace of the section loop and of the chapter loop\<close>

lemma slice_from_neg: "0 < k \<Longrightarrow> slice_from xs (- int k) = drop (length xs - k) xs"
  by (auto simp: slice_from_def nat_diff_distrib' intro: arg_cong [where f = "\<lambda>n. drop n xs"])

lemma slice_from_1000: "slice_from xs (- 1000) = drop (length xs - 1000) xs"
  using slice_from_neg [of 1000 xs] by simp

lemma slice_from_500: "slice_from xs (- 500) = drop (length xs - 500) xs"
  using slice_from_neg [of 500 xs] by simp

lemma slice_500_of_1000: "slice_from (slice_from xs (- 1000)) (- 500) = slice_from xs (- 500)"
  by (simp add: slice_from_1000 slice_from_500) (rule arg_cong [where f = "\<lambda>n. drop n xs"], arith)

lemma section_loop_length:
  "section_loop post dir ch secs full w = Inr (full', runs, w') \<Longrightarrow> length runs = length secs"
proof (induction secs arbitrary: full w runs)
  case Nil
  then show ?case by simp
next
  case (Cons a secs)
  obtain j s where a: "a = (j, s)" by (cases a)
  from section_loop_Cons [OF Cons.prems(1) [unfolded a]] obtain t runs' where
    c: "fst (generate_chapter_chunk post ch s (if full \<noteq> [] then slice_from full (- 1000) else []) w) =
       Str t"
    and rest: "section_loop post dir ch secs (full @ t)
       (sleep 1 (write_file (dir @ ''/section_'' @ fmt_02d j @ ''.md'') (''## '' @ s @ ''\<newline>\<newline>'' @ t)
          (snd (generate_chapter_chunk post ch s
                  (if full \<noteq> [] then slice_from full (- 1000) else []) w)))) =
       Inr (full', runs', w')"
    and runs: "runs = \<lparr>sr_title = s,
             sr_previous_content = (if full \<noteq> [] then slice_from full (- 1000) else []),
             sr_content = t\<rparr> # runs'"
    by blast
  from Cons.IH [OF rest] show ?case by (simp add: runs)
qed

lemma section_loop_full:
  "section_loop post dir ch secs full w = Inr (full', runs, w') \<Longrightarrow>
   full' = full @ concat (map sr_content runs)"
proof (induction secs arbitrary: full w runs)
  case Nil
  then show ?case by simp
next
  case (Cons a secs)
  obtain j s where a: "a = (j, s)" by (cases a)
  from section_loop_Cons [OF Cons.prems(1) [unfolded a]] obtain t runs' where
    c: "fst (generate_chapter_chunk post ch s (if full \<noteq> [] then slice_from full (- 1000) else []) w) =
       Str t"
    and rest: "section_loop post dir ch secs (full @ t)
       (sleep 1 (write_file (dir @ ''/section_'' @ fmt_02d j @ ''.md'') (''## '' @ s @ ''\<newline>\<newline>'' @ t)
          (snd (generate_chapter_chunk post ch s
                  (if full \<noteq> [] then slice_from full (- 1000) else []) w)))) =
       Inr (full', runs', w')"
    and runs: "runs = \<lparr>sr_title = s,
             sr_previous_content = (if full \<noteq> [] then slice_from full (- 1000) else []),
             sr_content = t\<rparr> # runs'"
    by blast
  from Cons.IH [OF rest] show ?case by (simp add: runs)
qed

lemma section_loop_titles:
  "section_loop post dir ch secs full w = Inr (full', runs, w') \<Longrightarrow>
   map sr_title runs = map snd secs"
proof (induction secs arbitrary: full w runs)
  case Nil
  then show ?case by simp
next
  case (Cons a secs)
  obtain j s where a: "a = (j, s)" by (cases a)
  from section_loop_Cons [OF Cons.prems(1) [unfolded a]] obtain t runs' where
    c: "fst (generate_chapter_chunk post ch s (if full \<noteq> [] then slice_from full (- 1000) else []) w) =
       Str t"
    and rest: "section_loop post dir ch secs (full @ t)
       (sleep 1 (write_file (dir @ ''/section_'' @ fmt_02d j @ ''.md'') (''## '' @ s @ ''\<newline>\<newline>'' @ t)
          (snd (generate_chapter_chunk post ch s
                  (if full \<noteq> [] then slice_from full (- 1000) else []) w)))) =
       Inr (full', runs', w')"
    and runs: "runs = \<lparr>sr_title = s,
             sr_previous_content = (if full \<noteq> [] then slice_from full (- 1000) else []),
             sr_content = t\<rparr> # runs'"
    by blast
  from Cons.IH [OF rest] show ?case by (simp add: runs a)
qed

lemma section_loop_previous:
  "section_loop post dir ch secs full w = Inr (full', runs, w') \<Longrightarrow> k < length secs \<Longrightarrow>
   sr_previous_content (runs ! k) =
     (if full @ concat (map sr_content (take k runs)) \<noteq> []
      then slice_from (full @ concat (map sr_content (take k runs))) (- 1000)
      else [])"
proof (induction secs arbitrary: full w runs k)
  case Nil
  then show ?case by simp
next
  case (Cons a secs)
  obtain j s where a: "a = (j, s)" by (cases a)
  from section_loop_Cons [OF Cons.prems(1) [unfolded a]] obtain t runs' where
    c: "fst (generate_chapter_chunk post ch s (if full \<noteq> [] then slice_from full (- 1000) else []) w) =
       Str t"
    and rest: "section_loop post dir ch secs (full @ t)
       (sleep 1 (write_file (dir @ ''/section_'' @ fmt_02d j @ ''.md'') (''## '' @ s @ ''\<newline>\<newline>'' @ t)
          (snd (generate_chapter_chunk post ch s
                  (if full \<noteq> [] then slice_from full (- 1000) else []) w)))) =
       Inr (full', runs', w')"
    and runs: "runs = \<lparr>sr_title = s,
             sr_previous_content = (if full \<noteq> [] then slice_from full (- 1000) else []),
             sr_content = t\<rparr> # runs'"
    by blast
  show ?case
  proof (cases k)
    case 0
    then show ?thesis by (simp add: runs)
  next
    case (Suc k')
    then have "k' < length secs" using Cons.prems(2) by simp
    from Cons.IH [OF rest this] show ?thesis
      by (simp add: runs Suc)
  qed
qed

lemma section_loop_calls:
  "section_loop post dir ch secs full w = Inr (full', runs, w') \<Longrightarrow> k < length secs \<Longrightarrow>
   \<exists>v. fst (generate_chapter_chunk post ch (sr_title (runs ! k)) (sr_previous_content (runs ! k)) v) =
     Str (sr_content (runs ! k))"
proof (induction secs arbitrary: full w runs k)
  case Nil
  then show ?case by simp
next
  case (Cons a secs)
  obtain j s where a: "a = (j, s)" by (cases a)
  from section_loop_Cons [OF Cons.prems(1) [unfolded a]] obtain t runs' where
    c: "fst (generate_chapter_chunk post ch s (if full \<noteq> [] then slice_from full (- 1000) else []) w) =
       Str t"
    and rest: "section_loop post dir ch secs (full @ t)
       (sleep 1 (write_file (dir @ ''/section_'' @ fmt_02d j @ ''.md'') (''## '' @ s @ ''\<newline>\<newline>'' @ t)
          (snd (generate_chapter_chunk post ch s
                  (if full \<noteq> [] then slice_from full (- 1000) else []) w)))) =
       Inr (full', runs', w')"
    and runs: "runs = \<lparr>sr_title = s,
             sr_previous_content = (if full \<noteq> [] then slice_from full (- 1000) else []),
             sr_content = t\<rparr> # runs'"
    by blast
  show ?case
  proof (cases k)
    case 0
    then show ?thesis using c by (auto simp: runs)
  next
    case (Suc k')
    then have "k' < length secs" using Cons.prems(2) by simp
    from Cons.IH [OF rest this] show ?thesis
      by (simp add: runs Suc)
  qed
qed

lemma chapter_loop_first:
  "chapter_loop post out xs prev w = Inr (runs, w') \<Longrightarrow> xs \<noteq> [] \<Longrightarrow>
   cr_previous_summary (runs ! 0) = prev"
proof (cases xs)
  case Nil
  assume "xs \<noteq> []"
  with Nil show ?thesis by simp
next
  case (Cons a xs')
  assume l: "chapter_loop post out xs prev w = Inr (runs, w')"
  obtain i ch where a: "a = (i, ch)" by (cases a)
  from chapter_loop_Cons [OF l [unfolded Cons a]] show ?thesis
    by (auto simp: chapter_body_title)
qed

lemma chapter_loop_next:
  "chapter_loop post out xs prev w = Inr (runs, w') \<Longrightarrow> Suc i < length xs \<Longrightarrow>
   cr_previous_summary (runs ! Suc i) = cr_summary (runs ! i)"
proof (induction xs arbitrary: prev w runs i)
  case Nil
  then show ?case by simp
next
  case (Cons a xs)
  obtain j ch where a: "a = (j, ch)" by (cases a)
  from chapter_loop_Cons [OF Cons.prems(1) [unfolded a]] obtain r w5 runs' where
    l: "chapter_loop post out xs (cr_summary r) w5 = Inr (runs', w')"
    and runs: "runs = r # runs'"
    by blast
  show ?case
  proof (cases i)
    case 0
    then have "xs \<noteq> []" using Cons.prems(2) by auto
    from chapter_loop_first [OF l this] show ?thesis
      by (simp add: runs 0)
  next
    case (Suc i')
    then have "Suc i' < length xs" using Cons.prems(2) by simp
    from Cons.IH [OF l this] show ?thesis
      by (simp add: runs Suc)
  qed
qed

lemma chapter_loop_runs_body:
  "chapter_loop post out xs prev w = Inr (runs, w') \<Longrightarrow> r \<in> set runs \<Longrightarrow>
   \<exists>i ch p v v'. chapter_body post out i ch p v = Inr (r, v')"
proof (induction xs arbitrary: prev w runs)
  case Nil
  then show ?case by simp
next
  case (Cons a xs)
  obtain j ch where a: "a = (j, ch)" by (cases a)
  from chapter_loop_Cons [OF Cons.prems(1) [unfolded a]] obtain r0 w5 runs' where
    b: "chapter_body post out j ch prev w = Inr (r0, w5)"
    and l: "chapter_loop post out xs (cr_summary r0) w5 = Inr (runs', w')"
    and runs: "runs = r0 # runs'"
    by blast
  show ?case
  proof (cases "r = r0")
    case True
    then show ?thesis using b by blast
  next
    case False
    then have "r \<in> set runs'" using Cons.prems(2) by (simp add: runs)
    from Cons.IH [OF l this] show ?thesis .
  qed
qed

section \<open>The requests of a chapter, in the order they are posted\<close>

lemma attempts_prefix: "prefix (events w) (events (snd (attempts post p m d as w)))"
proof (induction as arbitrary: w)
  case Nil
  show ?case by simp
next
  case (Cons a as)
  have step: "prefix (events w)
      (events (snd (attempts post p m d as (backoff a m d (w\<lparr>service := s, events := events w @ [Post p]\<rparr>)))))"
    for s
    by (rule prefix_order.trans [OF _ Cons.IH]) (simp add: backoff_def sleep_def)
  show ?case
    by (cases "post (service w) p")
       (auto simp: Let_def step split: post_result.splits option.splits)
qed

lemma attempts_first:
  "prefix (events w @ [Post p]) (events (snd (attempts post p m d (a # as) w)))"
proof -
  have step: "prefix (events w @ [Post p])
      (events (snd (attempts post p m d as (backoff a m d (w\<lparr>service := s, events := events w @ [Post p]\<rparr>)))))"
    for s
    by (rule prefix_order.trans [OF _ attempts_prefix]) (simp add: backoff_def sleep_def)
  show ?thesis
    by (cases "post (service w) p")
       (auto simp: Let_def step split: post_result.splits option.splits)
qed

lemma make_request_first:
  "\<exists>es. events (snd (make_request post p 3 5 w)) = events w @ Post p # es"
proof -
  have "prefix (events w @ [Post p]) (events (snd (make_request post p 3 5 w)))"
    unfolding make_request_def upt_0_3 by (rule attempts_first)
  then show ?thesis by (auto simp: prefix_def)
qed

lemma section_loop_events:
  "section_loop post dir ch secs full w = Inr (full', runs, w') \<Longrightarrow>
   \<exists>es. events w' = events w @ es \<and>
     subseq (map (\<lambda>s. Post (chapter_chunk_prompt ch (sr_title s) (sr_previous_content s))) runs) es"
proof (induction secs arbitrary: full w runs)
  case Nil
  then show ?case by simp
next
  case (Cons a secs)
  obtain j s where a: "a = (j, s)" by (cases a)
  define prev where "prev = (if full \<noteq> [] then slice_from full (- 1000) else [])"
  define c where "c = generate_chapter_chunk post ch s prev w"
  from section_loop_Cons [OF Cons.prems(1) [unfolded a]] obtain t runs' where
    rest: "section_loop post dir ch secs (full @ t)
       (sleep 1 (write_file (dir @ ''/section_'' @ fmt_02d j @ ''.md'') (''## '' @ s @ ''\<newline>\<newline>'' @ t)
          (snd c))) = Inr (full', runs', w')"
    and runs: "runs = \<lparr>sr_title = s, sr_previous_content = prev, sr_content = t\<rparr> # runs'"
    unfolding c_def prev_def by blast
  define w3 where "w3 = sleep 1 (write_file (dir @ ''/section_'' @ fmt_02d j @ ''.md'')
      (''## '' @ s @ ''\<newline>\<newline>'' @ t) (snd c))"
  obtain e1 where e1: "events (snd c) = events w @ Post (chapter_chunk_prompt ch s prev) # e1"
    using make_request_first [of post "chapter_chunk_prompt ch s prev" w]
    by (auto simp: c_def generate_chapter_chunk_def)
  have e3: "events w3 = events w @ Post (chapter_chunk_prompt ch s prev) # e1 @ [Sleep 1]"
    by (simp add: w3_def sleep_def write_file_def e1)
  obtain es where es: "events w' = events w3 @ es"
    and sub: "subseq (map (\<lambda>s. Post (chapter_chunk_prompt ch (sr_title s) (sr_previous_content s)))
               runs') es"
    using Cons.IH [OF rest [folded w3_def]] by blast
  have "subseq (map (\<lambda>s. Post (chapter_chunk_prompt ch (sr_title s) (sr_previous_content s)))
               runs') ((e1 @ [Sleep 1]) @ es)"
    using sub by (rule list_emb_append2)
  then show ?case
    by (simp add: runs es e3)
qed

lemma chapter_body_events:
  assumes "chapter_body post out i ch prev w = Inr (r, w')"
  shows "\<exists>es. events w' = events w @ es \<and> subseq (chapter_requests r) es"
proof -
  from chapter_body_Inr [OF assms] obtain secs w1 full runs w3 where
    g: "generate_chapter_structure post ch prev w = Inr (secs, w1)"
    and sl: "section_loop post (chapter_dir out i) ch (enumerate 1 secs) []
       (write_file (chapter_dir out i @ ''/README.md'') (chapter_readme i ch secs) w1) =
       Inr (full, runs, w3)"
    and r: "r = \<lparr>cr_title = ch, cr_previous_summary = prev, cr_sections = secs,
          cr_section_runs = runs, cr_content = full,
          cr_summary = fst (summarize_chapter post full w3)\<rparr>"
    and w': "w' = write_file (chapter_dir out i @ ''/full_chapter.md'')
            (''# Chapter '' @ str_nat i @ '': '' @ ch @ ''\<newline>\<newline>'' @ full)
            (snd (summarize_chapter post full w3))"
    by blast
  obtain e1 where e1: "events w1 = events w @ Post (chapter_structure_prompt ch prev) # e1"
    using make_request_first [of post "chapter_structure_prompt ch prev" w]
      generate_chapter_structure_world [OF g] by auto
  obtain e2 where e2: "events w3 = events w1 @ e2"
    and sub: "subseq (map (\<lambda>s. Post (chapter_chunk_prompt ch (sr_title s) (sr_previous_content s)))
               runs) e2"
    using section_loop_events [OF sl] by (auto simp: write_file_def)
  obtain e3 where e3: "events (snd (summarize_chapter post full w3)) =
      events w3 @ Post (summary_prompt full) # e3"
    using make_request_first [of post "summary_prompt full" w3]
    by (auto simp: summarize_chapter_def)
  have ev: "events w' =
      events w @ Post (chapter_structure_prompt ch prev) # e1 @ e2 @ Post (summary_prompt full) # e3"
    by (simp add: w' write_file_def e3 e2 e1)
  have "subseq (map (\<lambda>s. Post (chapter_chunk_prompt ch (sr_title s) (sr_previous_content s)))
               runs @ [Post (summary_prompt full)])
          (e2 @ Post (summary_prompt full) # e3)"
    using sub by (intro list_emb_append_mono) simp_all
  then have "subseq (chapter_requests r)
      (Post (chapter_structure_prompt ch prev) # e1 @ e2 @ Post (summary_prompt full) # e3)"
    by (simp add: r chapter_requests_def list_emb_append2)
  then show ?thesis
    unfolding ev by blast
qed

lemma chapter_loop_events:
  "chapter_loop post out xs prev w = Inr (runs, w') \<Longrightarrow>
   \<exists>es. events w' = events w @ es \<and> subseq (concat (map chapter_requests runs)) es"
proof (induction xs arbitrary: prev w runs)
  case Nil
  then show ?case by simp
next
  case (Cons a xs)
  obtain i ch where a: "a = (i, ch)" by (cases a)
  from chapter_loop_Cons [OF Cons.prems(1) [unfolded a]] obtain r w5 runs' where
    b: "chapter_body post out i ch prev w = Inr (r, w5)"
    and l: "chapter_loop post out xs (cr_summary r) w5 = Inr (runs', w')"
    and runs: "runs = r # runs'"
    by blast
  obtain e1 where e1: "events w5 = events w @ e1"
    and s1: "subseq (chapter_requests r) e1"
    using chapter_body_events [OF b] by blast
  obtain e2 where e2: "events w' = events w5 @ e2"
    and s2: "subseq (concat (map chapter_requests runs')) e2"
    using Cons.IH [OF l] by blast
  have "subseq (chapter_requests r @ concat (map chapter_requests runs')) (e1 @ e2)"
    using s1 s2 by (rule list_emb_append_mono)
  then show ?case
    by (simp add: runs e2 e1)
qed

section \<open>Services that answer with text: nothing is raised\<close>

lemma text_only_post: "text_only post \<Longrightarrow> is_text (fst (post s p))"
  by (simp add: text_only_def)

lemma text_only_attempts:
  "text_only post \<Longrightarrow> \<exists>t. fst (attempts post p m d as w) = Str t"
proof (induction as arbitrary: w)
  case Nil
  show ?case by simp
next
  case (Cons a as)
  have ih: "\<exists>t. fst (attempts post p m d as v) = Str t" for v
    using Cons.IH [OF Cons.prems] .
  have t: "is_text (fst (post (service w) p))"
    using Cons.prems by (rule text_only_post)
  obtain r s' where ps: "post (service w) p = (r, s')" by (cases "post (service w) p")
  show ?case
  proof (cases r)
    case PostException
    then show ?thesis using ih by (simp add: ps Let_def)
  next
    case (Response st body)
    show ?thesis
    proof (cases body)
      case None
      then show ?thesis using ih by (simp add: ps Response Let_def)
    next
      case (Some v)
      show ?thesis
      proof (cases v)
        case (Str x)
        then show ?thesis using ih by (simp add: ps Response Some Let_def)
      next
        case (Other b x)
        then have "st \<noteq> 200" using t by (simp add: ps Response Some)
        then show ?thesis using ih by (simp add: ps Response Some Let_def)
      qed
    qed
  qed
qed

lemma text_only_make_request:
  "text_only post \<Longrightarrow> \<exists>t. fst (make_request post p m d w) = Str t"
  by (simp add: make_request_def text_only_attempts)

lemma text_only_outline:
  assumes "text_only post"
  shows "\<exists>cs w'. generate_outline post topic n w = Inr (cs, w')"
proof -
  obtain t1 where 1: "fst (make_request post (outline_prompt topic n) 3 5 w) = Str t1"
    using text_only_make_request [OF assms] by blast
  have 2: "\<exists>t. fst (make_request post p 3 5 v) = Str t" for p v
    using text_only_make_request [OF assms] by blast
  show ?thesis
    using 1 2 [of "additional_prompt topic (n - int (length (stripped_lines t1))) (stripped_lines t1)"
        "snd (make_request post (outline_prompt topic n) 3 5 w)"]
    by (auto simp: generate_outline_def Let_def split_beta)
qed

lemma text_only_structure:
  assumes "text_only post"
  shows "\<exists>secs w'. generate_chapter_structure post c p w = Inr (secs, w')"
  using text_only_make_request [OF assms, of "chapter_structure_prompt c p" 3 5 w]
  by (auto simp: generate_chapter_structure_def Let_def split_beta)

lemma text_only_metadata:
  assumes "text_only post"
  shows "\<exists>m w'. generate_metadata post topic cs w = Inr (m, w')"
  using text_only_make_request [OF assms, of "metadata_prompt topic cs" 3 5 w]
  by (auto simp: generate_metadata_def parse_metadata_def Let_def split_beta)

lemma text_only_bibliography:
  assumes "text_only post"
  shows "\<exists>bib w'. generate_bibliography post topic w = Inr (bib, w')"
  using text_only_make_request [OF assms, of "bibliography_prompt topic" 3 5 w]
  by (auto simp: generate_bibliography_def Let_def split_beta)

lemma text_only_section_loop:
  assumes "text_only post"
  shows "\<exists>full' runs w'. section_loop post d ch secs full w = Inr (full', runs, w')"
proof (induction secs arbitrary: full w)
  case Nil
  show ?case by simp
next
  case (Cons a secs)
  obtain j s where a: "a = (j, s)" by (cases a)
  define prev where "prev = (if full \<noteq> [] then slice_from full (- 1000) else [])"
  obtain t where t: "fst (generate_chapter_chunk post ch s prev w) = Str t"
    using text_only_make_request [OF assms, of "chapter_chunk_prompt ch s prev" 3 5 w]
    by (auto simp: generate_chapter_chunk_def)
  obtain full' runs w' where "section_loop post d ch secs (full @ t)
       (sleep 1 (write_file (d @ ''/section_'' @ fmt_02d j @ ''.md'') (''## '' @ s @ ''\<newline>\<newline>'' @ t)
          (snd (generate_chapter_chunk post ch s prev w)))) = Inr (full', runs, w')"
    using Cons.IH by blast
  then show ?case
    using t by (simp add: a Let_def split_beta prev_def [symmetric])
qed

lemma text_only_chapter_body:
  assumes "text_only post"
  shows "\<exists>r w'. chapter_body post out i ch prev w = Inr (r, w')"
proof -
  obtain secs w1 where g: "generate_chapter_structure post ch prev w = Inr (secs, w1)"
    using text_only_structure [OF assms] by blast
  obtain full runs w3 where "section_loop post (chapter_dir out i) ch (enumerate 1 secs) []
       (write_file (chapter_dir out i @ ''/README.md'') (chapter_readme i ch secs) w1) =
       Inr (full, runs, w3)"
    using text_only_section_loop [OF assms] by blast
  then show ?thesis
    using g by (simp add: chapter_body_def Let_def split_beta)
qed

lemma text_only_chapter_loop:
  assumes "text_only post"
  shows "\<exists>runs w'. chapter_loop post out xs prev w = Inr (runs, w')"
proof (induction xs arbitrary: prev w)
  case Nil
  show ?case by simp
next
  case (Cons a xs)
  obtain i ch where a: "a = (i, ch)" by (cases a)
  obtain r w5 where b: "chapter_body post out i ch prev w = Inr (r, w5)"
    using text_only_chapter_body [OF assms] by blast
  obtain runs w' where "chapter_loop post out xs (cr_summary r) w5 = Inr (runs, w')"
    using Cons.IH by blast
  then show ?case
    using b by (simp add: a)
qed

section \<open>What a returning run of \<open>generate_book\<close> has done, and when it returns\<close>

lemma distinct_enumerate_fst: "distinct (map fst (enumerate n xs))"
  by (simp add: enumerate_eq_zip)

lemma generate_book_Inr:
  assumes "generate_book post topic n od ts w = Inr (b, w')"
  shows "\<exists>w1 w2 w7 w8 w10 w11 w12.
     bk_output_dir b = book_dir topic od ts \<and>
     generate_outline post topic n w = Inr (bk_chapters b, w1) \<and>
     generate_metadata post topic (bk_chapters b) w1 = Inr (bk_metadata b, w2) \<and>
     (\<exists>v. bk_introduction b =
        fst (generate_introduction post topic (bk_chapters b) (bk_metadata b) v)) \<and>
     chapter_loop post (bk_output_dir b) (enumerate 1 (bk_chapters b)) (Str []) w7 =
       Inr (bk_chapter_runs b, w8) \<and>
     bk_conclusion b = fst (generate_conclusion post topic (bk_chapters b) (bk_metadata b) w8) \<and>
     w10 = write_file (bk_output_dir b @ ''/conclusion.md'')
             (''# Conclusion\<newline>\<newline>'' @ py_str (bk_conclusion b))
             (snd (generate_conclusion post topic (bk_chapters b) (bk_metadata b) w8)) \<and>
     generate_bibliography post topic w10 = Inr (bk_bibliography b, w11) \<and>
     w12 = write_file (bk_output_dir b @ ''/bibliography.md'')
             (write_references (enumerate 1 (bk_bibliography b)) ''# Bibliography\<newline>\<newline>'') w11 \<and>
     write_full_book (bk_output_dir b) (bk_metadata b) (bk_introduction b) (bk_chapters b)
       (bk_conclusion b) (bk_bibliography b) w12 = Inr w'"
  using assms unfolding generate_book_def Let_def split_beta
  apply (clarsimp split: sum.splits)
  apply (intro exI conjI)
         apply (rule refl | assumption)+
  done

lemma write_full_book_Inr:
  assumes "write_full_book out m intro chs concl bib w = Inr w'"
  shows "\<exists>i c. intro = Str i \<and> concl = Str c"
  using assms
  by (cases intro; cases concl) (auto simp: write_full_book_def Let_def split: sum.splits)

lemma make_request_events:
  "\<exists>es. events (snd (make_request post p 3 5 w)) = events w @ es"
  using make_request_first [of post p w] by auto

lemma generate_book_ok:
  fixes post :: "'s \<Rightarrow> string \<Rightarrow> post_result \<times> 's"
  assumes "generate_book post topic n od ts w = Inr (b, w')"
  shows "length (bk_chapter_runs b) = length (bk_chapters b)"
    and "map cr_title (bk_chapter_runs b) = bk_chapters b"
    and "\<exists>v v'. chapter_loop post (bk_output_dir b) (enumerate 1 (bk_chapters b)) (Str []) v =
           Inr (bk_chapter_runs b, v')"
    and "subseq (concat (map chapter_requests (bk_chapter_runs b))) (events w')"
    and "files w' (bk_output_dir b @ ''/full_book.md'') = Some (book_text b)"
    and "\<exists>i c. bk_introduction b = Str i \<and> bk_conclusion b = Str c"
proof -
  define out where "out = bk_output_dir b"
  define chapters where "chapters = bk_chapters b"
  define md where "md = bk_metadata b"
  define runs where "runs = bk_chapter_runs b"
  define bib where "bib = bk_bibliography b"
  from generate_book_Inr [OF assms] obtain w7 w8 w10 w11 w12 where
    loop: "chapter_loop post out (enumerate 1 chapters) (Str []) w7 = Inr (runs, w8)"
    and concl: "bk_conclusion b = fst (generate_conclusion post topic chapters md w8)"
    and w10: "w10 = write_file (out @ ''/conclusion.md'')
             (''# Conclusion\<newline>\<newline>'' @ py_str (bk_conclusion b))
             (snd (generate_conclusion post topic chapters md w8))"
    and gb: "generate_bibliography post topic w10 = Inr (bib, w11)"
    and w12: "w12 = write_file (out @ ''/bibliography.md'')
             (write_references (enumerate 1 bib) ''# Bibliography\<newline>\<newline>'') w11"
    and wfb: "write_full_book out md (bk_introduction b) chapters (bk_conclusion b) bib w12 = Inr w'"
    unfolding out_def chapters_def md_def runs_def bib_def by blast
  show len: "length (bk_chapter_runs b) = length (bk_chapters b)"
    using chapter_loop_length [OF loop] by (simp add: runs_def chapters_def)
  show "map cr_title (bk_chapter_runs b) = bk_chapters b"
    using chapter_loop_titles [OF loop] by (simp add: runs_def chapters_def)
  show "\<exists>v v'. chapter_loop post (bk_output_dir b) (enumerate 1 (bk_chapters b)) (Str []) v =
           Inr (bk_chapter_runs b, v')"
    using loop unfolding out_def chapters_def runs_def by blast
  from write_full_book_Inr [OF wfb] obtain i c where
    i: "bk_introduction b = Str i" and c: "bk_conclusion b = Str c"
    by blast
  then show "\<exists>i c. bk_introduction b = Str i \<and> bk_conclusion b = Str c"
    by blast
  have w11: "w11 = snd (make_request post (bibliography_prompt topic) 3 5 w10)"
    by (rule generate_bibliography_world [OF gb])
  have keep: "files w12 (chapter_file out k) = files w8 (chapter_file out k)" for k
    by (simp add: w12 w11 w10 stage_files chapter_file_neq_top)
  have "map (\<lambda>a. files w8 (chapter_file out (fst a))) (enumerate 1 chapters) =
     map (\<lambda>a. Some (chapter_text (fst (fst a)) (snd (fst a)) (cr_content (snd a))))
       (zip (enumerate 1 chapters) runs)"
    by (rule chapter_loop_chapter_files [OF loop distinct_enumerate_fst])
  then have "map (\<lambda>a. files w12 (chapter_file out (fst a))) (enumerate 1 chapters) =
     map Some (chapter_texts chapters runs)"
    by (simp add: keep chapter_texts_def comp_def case_prod_unfold)
  from write_full_book_ok [OF this, of md i c bib] wfb
  have w': "w' = write_file (out @ ''/full_book.md'')
       (full_book_text md i (map universal_newlines (chapter_texts chapters runs)) c bib) w12"
    by (simp add: i c)
  show "files w' (bk_output_dir b @ ''/full_book.md'') = Some (book_text b)"
    by (simp add: w' files_write_file book_text_def i c out_def md_def chapters_def runs_def bib_def)
  obtain e8 where e8: "events w8 = events w7 @ e8"
    and s8: "subseq (concat (map chapter_requests runs)) e8"
    using chapter_loop_events [OF loop] by blast
  obtain e9 where e9: "events (snd (generate_conclusion post topic chapters md w8)) = events w8 @ e9"
    using make_request_events [of post "conclusion_prompt topic chapters md" w8]
    by (auto simp: generate_conclusion_def)
  obtain e11 where e11: "events w11 = events w10 @ e11"
    using make_request_events [of post "bibliography_prompt topic" w10] unfolding w11 by blast
  have ev: "events w' = events w7 @ e8 @ e9 @ e11"
    by (simp add: w' w12 write_file_def e11 w10 e9 e8)
  have "subseq (concat (map chapter_requests runs)) (e8 @ e9 @ e11)"
    using s8 by (rule list_emb_prefix)
  then show "subseq (concat (map chapter_requests (bk_chapter_runs b))) (events w')"
    unfolding ev runs_def by (rule list_emb_append2)
qed

lemma generate_book_total:
  fixes post :: "'s \<Rightarrow> string \<Rightarrow> post_result \<times> 's"
  assumes "text_only post"
  shows "\<exists>b w'. generate_book post topic n od ts w = Inr (b, w')"
proof -
  define out where "out = book_dir topic od ts"
  obtain chapters w1 where o: "generate_outline post topic n w = Inr (chapters, w1)"
    using text_only_outline [OF assms] by blast
  obtain md w2 where m: "generate_metadata post topic chapters w1 = Inr (md, w2)"
    using text_only_metadata [OF assms] by blast
  define w4 where "w4 = write_file (out @ ''/outline.txt'') (str_join ''\<newline>'' chapters)
     (write_file (out @ ''/metadata.json'') (json_dump md) w2)"
  define o5 where "o5 = generate_introduction post topic chapters md w4"
  obtain i where i: "fst o5 = Str i"
    using text_only_make_request [OF assms, of "introduction_prompt topic chapters md" 3 5 w4]
    by (auto simp: o5_def generate_introduction_def)
  define w7 where "w7 = write_file (out @ ''/README.md'') (book_readme md chapters)
     (write_file (out @ ''/introduction.md'') (''# Introduction\<newline>\<newline>'' @ py_str (fst o5)) (snd o5))"
  obtain runs w8 where loop: "chapter_loop post out (enumerate 1 chapters) (Str []) w7 = Inr (runs, w8)"
    using text_only_chapter_loop [OF assms] by blast
  define o9 where "o9 = generate_conclusion post topic chapters md w8"
  obtain c where c: "fst o9 = Str c"
    using text_only_make_request [OF assms, of "conclusion_prompt topic chapters md" 3 5 w8]
    by (auto simp: o9_def generate_conclusion_def)
  define w10 where "w10 = write_file (out @ ''/conclusion.md'')
     (''# Conclusion\<newline>\<newline>'' @ py_str (fst o9)) (snd o9)"
  obtain bib w11 where gb: "generate_bibliography post topic w10 = Inr (bib, w11)"
    using text_only_bibliography [OF assms] by blast
  define w12 where "w12 = write_file (out @ ''/bibliography.md'')
     (write_references (enumerate 1 bib) ''# Bibliography\<newline>\<newline>'') w11"
  have w11: "w11 = snd (make_request post (bibliography_prompt topic) 3 5 w10)"
    by (rule generate_bibliography_world [OF gb])
  have keep: "files w12 (chapter_file out k) = files w8 (chapter_file out k)" for k
    by (simp add: w12_def w11 w10_def o9_def stage_files chapter_file_neq_top)
  have "map (\<lambda>a. files w8 (chapter_file out (fst a))) (enumerate 1 chapters) =
     map (\<lambda>a. Some (chapter_text (fst (fst a)) (snd (fst a)) (cr_content (snd a))))
       (zip (enumerate 1 chapters) runs)"
    by (rule chapter_loop_chapter_files [OF loop distinct_enumerate_fst])
  then have "map (\<lambda>a. files w12 (chapter_file out (fst a))) (enumerate 1 chapters) =
     map Some (chapter_texts chapters runs)"
    by (simp add: keep chapter_texts_def comp_def case_prod_unfold)
  from write_full_book_ok [OF this, of md i c bib]
  have wfb: "write_full_book out md (fst o5) chapters (fst o9) bib w12 =
     Inr (write_file (out @ ''/full_book.md'')
       (full_book_text md i (map universal_newlines (chapter_texts chapters runs)) c bib) w12)"
    by (simp add: i c)
  have "generate_book post topic n od ts w =
     Inr (\<lparr>bk_output_dir = out, bk_chapters = chapters, bk_metadata = md,
           bk_introduction = fst o5, bk_chapter_runs = runs, bk_conclusion = fst o9,
           bk_bibliography = bib\<rparr>,
          write_file (out @ ''/full_book.md'')
            (full_book_text md i (map universal_newlines (chapter_texts chapters runs)) c bib) w12)"
    unfolding generate_book_def Let_def split_beta
    using o m loop gb wfb
    unfolding out_def w4_def o5_def w7_def o9_def w10_def w12_def
    by simp
  then show ?thesis by blast
qed

section \<open>Concrete runs\<close>

text \<open>The definitions a run on a scripted service is evaluated with, and the two scripted runs.\<close>

lemmas run_defs = generate_book_def generate_outline_def generate_metadata_def parse_metadata_def
  default_metadata_def metadata_line_def startswith_def generate_introduction_def
  generate_conclusion_def generate_bibliography_def generate_chapter_structure_def
  generate_chapter_chunk_def summarize_chapter_def chapter_body_def
  make_request_def upt_0_3 scripted_def scripted_text_def write_full_book_def book_dir_def backoff_def
  write_file_def sleep_def world0_def enumerate_eq_zip Let_def stripped_lines_def str_strip_def
  isspace_def slice_to_def slice_from_def str_replace.simps upt_rec chapter_dir_def fmt_02d_def
  str_nat.simps digit_char_def

lemma small_run:
  "\<exists>b w'. generate_book scripted ''T'' 2 (Some ''out'') [] (world0 script1) = Inr (b, w') \<and>
     bk_chapters b = [''A'', ''B''] \<and>
     bk_chapter_runs b =
       [\<lparr>cr_title = ''A'', cr_previous_summary = Str [], cr_sections = [''S1'', ''S2''],
         cr_section_runs =
           [\<lparr>sr_title = ''S1'', sr_previous_content = [], sr_content = ''alpha''\<rparr>,
            \<lparr>sr_title = ''S2'', sr_previous_content = ''alpha'', sr_content = ''beta''\<rparr>],
         cr_content = ''alphabeta'', cr_summary = Str ''sumA''\<rparr>,
        \<lparr>cr_title = ''B'', cr_previous_summary = Str ''sumA'', cr_sections = [''S''],
         cr_section_runs =
           [\<lparr>sr_title = ''S'', sr_previous_content = [], sr_content = ''gamma''\<rparr>],
         cr_content = ''gamma'', cr_summary = Str ''sumB''\<rparr>]"
  by (simp add: run_defs script1_def)

lemma small_run2:
  "\<exists>b w'. generate_book scripted ''T'' 2 (Some ''elsewhere'') [] (world0 script2) = Inr (b, w') \<and>
     bk_chapters b = [''A'', ''B''] \<and>
     bk_chapter_runs b =
       [\<lparr>cr_title = ''A'', cr_previous_summary = Str [], cr_sections = [''S''],
         cr_section_runs =
           [\<lparr>sr_title = ''S'', sr_previous_content = [], sr_content = ''delta''\<rparr>],
         cr_content = ''delta'', cr_summary = Str ''sumA''\<rparr>,
        \<lparr>cr_title = ''B'', cr_previous_summary = Str ''sumA'', cr_sections = [''S''],
         cr_section_runs =
           [\<lparr>sr_title = ''S'', sr_previous_content = [], sr_content = ''epsilon''\<rparr>],
         cr_content = ''epsilon'', cr_summary = Str ''sumC''\<rparr>]"
  by (simp add: run_defs script2_def)

lemma text_only_scripted_text: "text_only scripted_text"
  by (auto simp: text_only_def scripted_text_def split: list.splits option.splits)

section \<open>The outline\<close>

lemma stripped_lines_Nil: "stripped_lines [] = []"
  by (simp add: stripped_lines_def str_strip_def)

lemma generate_outline_cases:
  assumes "make_request post (outline_prompt topic N) 3 5 w = (Str r1, w1)"
    and "int (length (stripped_lines r1)) < N \<Longrightarrow>
         make_request post
           (additional_prompt topic (N - int (length (stripped_lines r1))) (stripped_lines r1)) 3 5 w1
         = (Str r2, w2)"
  shows "generate_outline post topic N w =
     Inr (if r1 = [] then ([], w1)
          else if N < int (length (stripped_lines r1)) then (slice_to (stripped_lines r1) N, w1)
          else if int (length (stripped_lines r1)) < N then
            (stripped_lines r1 @ slice_to (stripped_lines r2) (N - int (length (stripped_lines r1))), w2)
          else (stripped_lines r1, w1))"
  using assms by (auto simp: generate_outline_def Let_def stripped_lines_Nil slice_to_def)

lemma generate_outline_le:
  assumes "0 \<le> N" and "generate_outline post topic N w = Inr (chapters, w')"
  shows "int (length chapters) \<le> N"
  using assms
  by (auto simp: generate_outline_def Let_def slice_to_def str_method_Inr
        split: prod.splits if_splits sum.splits)

lemma generate_outline_failed:
  "\<not> truthy (fst (make_request post (outline_prompt topic N) 3 5 w)) \<Longrightarrow>
   generate_outline post topic N w = Inr ([], snd (make_request post (outline_prompt topic N) 3 5 w))"
  by (simp add: generate_outline_def Let_def split_beta)

lemma make_request_always_raises:
  "make_request always_raises p 3 5 w =
     (Str [], w\<lparr>events := events w @ [Post p, Sleep 5, Post p, Sleep 5, Post p]\<rparr>)"
  by (simp add: make_request_def upt_0_3 always_raises_def backoff_def sleep_def)

lemma text_only_always_raises: "text_only always_raises"
  by (simp add: text_only_def always_raises_def)

text \<open>
  C1, as it is written: whenever the outline requests succeed, the outline has exactly
  \<open>N\<close> titles. It fails: with \<open>N = 3\<close>, a first response of one line and a
  supplemental response of one line, both requests succeed at their first attempt and
  the outline has two titles.
\<close>

theorem generate_outline_underfilled:
  "generate_outline scripted ''T'' 3
     (world0 [Response 200 (Some (Str ''A'')), Response 200 (Some (Str ''B''))]) =
   Inr ([''A'', ''B''],
        \<lparr>service = [],
         events = [Post (outline_prompt ''T'' 3), Post (additional_prompt ''T'' 2 [''A''])],
         files = Map.empty\<rparr>)"
  by (simp add: generate_outline_def make_request_def upt_0_3 scripted_def world0_def
        stripped_lines_def str_strip_def isspace_def slice_to_def)

text \<open>
  C1, amended. Let \<open>N \<ge> 1\<close> and let the first request return a non-empty text
  \<open>r1\<close> with the non-blank lines \<open>stripped_lines r1\<close>. If there are at least \<open>N\<close> of
  them the outline is the first \<open>N\<close> and no second request is made. Otherwise one
  supplemental request is made, for the deficit and naming the chapters found so far,
  and, with \<open>r2\<close> the text it returns, the outline is those chapters followed by the
  non-blank lines of \<open>r2\<close>, up to the deficit. So the outline has \<open>N\<close> titles when
  the two responses together have at least \<open>N\<close> non-blank lines, and all of their
  lines otherwise.
\<close>

theorem generate_outline_topped_up:
  assumes "1 \<le> N"
    and "make_request post (outline_prompt topic N) 3 5 w = (Str r1, w1)"
    and "r1 \<noteq> []"
    and "int (length (stripped_lines r1)) < N \<Longrightarrow>
         make_request post
           (additional_prompt topic (N - int (length (stripped_lines r1))) (stripped_lines r1)) 3 5 w1
         = (Str r2, w2)"
  shows "generate_outline post topic N w =
           Inr (if N \<le> int (length (stripped_lines r1)) then (take (nat N) (stripped_lines r1), w1)
                else (stripped_lines r1 @
                        take (nat N - length (stripped_lines r1)) (stripped_lines r2), w2)) \<and>
         length (if N \<le> int (length (stripped_lines r1)) then take (nat N) (stripped_lines r1)
                 else stripped_lines r1 @
                        take (nat N - length (stripped_lines r1)) (stripped_lines r2)) =
           (if N \<le> int (length (stripped_lines r1)) then nat N
            else min (nat N) (length (stripped_lines r1) + length (stripped_lines r2)))"
proof -
  have nat_diff: "nat (N - int (length (stripped_lines r1))) = nat N - length (stripped_lines r1)"
    using assms(1) by simp
  have eq: "generate_outline post topic N w =
      Inr (if N \<le> int (length (stripped_lines r1)) then (take (nat N) (stripped_lines r1), w1)
           else (stripped_lines r1 @
                   take (nat N - length (stripped_lines r1)) (stripped_lines r2), w2))"
    using assms(1,3) by (auto simp: generate_outline_cases [OF assms(2,4)] slice_to_def nat_diff)
  show ?thesis
    unfolding eq using assms(1) by (auto simp: min_def)
qed

theorem generate_outline_topped_up_witness:
  "generate_outline scripted ''T'' 3
     (world0 [Response 200 (Some (Str ''A'')), Response 200 (Some (Str ''B\<newline>C\<newline>D''))]) =
   Inr ([''A'', ''B'', ''C''],
        \<lparr>service = [],
         events = [Post (outline_prompt ''T'' 3), Post (additional_prompt ''T'' 2 [''A''])],
         files = Map.empty\<rparr>)"
  using generate_outline_topped_up [of 3 scripted "''T''"
    "world0 [Response 200 (Some (Str ''A'')), Response 200 (Some (Str ''B\<newline>C\<newline>D''))]"
    "''A''"
    "\<lparr>service = [Response 200 (Some (Str ''B\<newline>C\<newline>D''))],
      events = [Post (outline_prompt ''T'' 3)], files = Map.empty\<rparr>"
    "''B\<newline>C\<newline>D''"
    "\<lparr>service = [],
      events = [Post (outline_prompt ''T'' 3), Post (additional_prompt ''T'' 2 [''A''])],
      files = Map.empty\<rparr>"]
  by (simp add: make_request_def upt_0_3 scripted_def world0_def
        stripped_lines_def str_strip_def isspace_def)

text \<open>
  C10. For every \<open>N \<ge> 1\<close>, every topic and every service, an outline that
  \<open>generate_outline\<close> returns has at most \<open>N\<close> titles; when the first request
  returns the empty result, or any other value that counts as false, the outline is
  empty; and for a service that answers with text \<open>generate_book\<close> completes on the
  outline, whatever its length, with one chapter generated for each of its titles.
\<close>

theorem generate_outline_at_most:
  fixes post :: "'s \<Rightarrow> string \<Rightarrow> post_result \<times> 's"
  assumes "1 \<le> N"
  shows "(\<forall>chapters w1. generate_outline post topic N w = Inr (chapters, w1) \<longrightarrow>
            int (length chapters) \<le> N) \<and>
     (\<not> truthy (fst (make_request post (outline_prompt topic N) 3 5 w)) \<longrightarrow>
        generate_outline post topic N w =
          Inr ([], snd (make_request post (outline_prompt topic N) 3 5 w))) \<and>
     (text_only post \<longrightarrow>
        (\<exists>b w' w1. generate_book post topic N output_dir timestamp w = Inr (b, w') \<and>
           generate_outline post topic N w = Inr (bk_chapters b, w1) \<and>
           int (length (bk_chapters b)) \<le> N \<and>
           length (bk_chapter_runs b) = length (bk_chapters b)))"
proof -
  have le: "int (length chapters) \<le> N" if "generate_outline post topic N w = Inr (chapters, w1)"
    for chapters w1
    using assms that by (intro generate_outline_le [of N post topic w chapters w1]) simp_all
  have "\<exists>b w' w1. generate_book post topic N output_dir timestamp w = Inr (b, w') \<and>
           generate_outline post topic N w = Inr (bk_chapters b, w1) \<and>
           int (length (bk_chapters b)) \<le> N \<and>
           length (bk_chapter_runs b) = length (bk_chapters b)"
    if t: "text_only post"
  proof -
    obtain b w' where gb: "generate_book post topic N output_dir timestamp w = Inr (b, w')"
      using generate_book_total [OF t] by blast
    obtain w1 where o: "generate_outline post topic N w = Inr (bk_chapters b, w1)"
      using generate_book_Inr [OF gb] by blast
    show ?thesis
      using gb o le [OF o] generate_book_ok(1) [OF gb] by blast
  qed
  then show ?thesis
    using le by (simp add: generate_outline_failed)
qed

theorem generate_outline_at_most_witness:
  "(1::int) \<le> 2 \<and>
   \<not> truthy (fst (make_request always_raises (outline_prompt ''T'' 2) 3 5 (world0 ()))) \<and>
   text_only always_raises \<and>
   (\<exists>w1. generate_outline always_raises ''T'' 2 (world0 ()) = Inr ([], w1)) \<and>
   (\<exists>b w'. generate_book always_raises ''T'' 2 (Some ''out'') [] (world0 ()) = Inr (b, w') \<and>
      bk_chapters b = [] \<and> bk_chapter_runs b = [])"
  using generate_outline_at_most [of 2 always_raises "''T''" "world0 ()" "Some ''out''" "[]"]
  by (auto simp: make_request_always_raises text_only_always_raises)

section \<open>When the pipeline reaches its end\<close>

text \<open>
  C2, as it is written: for every sequence of service responses \<open>generate_book\<close>
  runs to completion without raising. It fails: \<open>_make_request\<close> returns the
  \<open>response\<close> field of a 200 answer as it is, and when the answer to a section
  request has \<open>null\<close> there, \<open>full_chapter_content += section_content\<close> raises
  \<open>TypeError\<close>, which nothing catches.
\<close>

theorem generate_book_raises:
  "generate_book scripted ''T'' 1 (Some ''out'') []
     (world0
        [Response 200 (Some (Str ''A'')),
         Response 200 (Some (Str ''Title: X'')),
         Response 200 (Some (Str ''I'')),
         Response 200 (Some (Str ''S'')),
         Response 200 (Some (Other False ''None''))]) =
   Inl TypeError"
  by (simp add: run_defs)

text \<open>
  C2, amended. Let the service answer with text: a call may raise, return any status, or
  return a body that cannot be read, every call may fail, but a 200 answer never carries
  a \<open>response\<close> that is not a string. Then for every topic, chapter count and output
  directory \<open>generate_book\<close> returns normally. Its outline is what
  \<open>generate_outline\<close> returned, its metadata what \<open>generate_metadata\<close> returned
  for that outline, its introduction, conclusion and bibliography what their stages
  returned, and its chapters what the chapter loop returned from the empty summary, one
  for each title of the outline. \<open>full_book.md\<close> then holds the assembled document:
  title page, introduction, the chapter files as read back, conclusion and numbered
  bibliography.
\<close>

theorem generate_book_completes:
  fixes post :: "'s \<Rightarrow> string \<Rightarrow> post_result \<times> 's"
  assumes "text_only post"
  shows "\<exists>b w'. generate_book post topic num_chapters output_dir timestamp w = Inr (b, w') \<and>
     (\<exists>w1 w2. generate_outline post topic num_chapters w = Inr (bk_chapters b, w1) \<and>
        generate_metadata post topic (bk_chapters b) w1 = Inr (bk_metadata b, w2)) \<and>
     (\<exists>v. bk_introduction b =
        fst (generate_introduction post topic (bk_chapters b) (bk_metadata b) v)) \<and>
     (\<exists>v v'. chapter_loop post (book_dir topic output_dir timestamp)
                (enumerate 1 (bk_chapters b)) (Str []) v = Inr (bk_chapter_runs b, v')) \<and>
     length (bk_chapter_runs b) = length (bk_chapters b) \<and>
     map cr_title (bk_chapter_runs b) = bk_chapters b \<and>
     (\<exists>v. bk_conclusion b =
        fst (generate_conclusion post topic (bk_chapters b) (bk_metadata b) v)) \<and>
     (\<exists>v v'. generate_bibliography post topic v = Inr (bk_bibliography b, v')) \<and>
     files w' (book_dir topic output_dir timestamp @ ''/full_book.md'') = Some (book_text b)"
proof -
  obtain b w' where gb: "generate_book post topic num_chapters output_dir timestamp w = Inr (b, w')"
    using generate_book_total [OF assms] by blast
  from generate_book_Inr [OF gb] obtain w1 w2 w8 w10 w11 where
    out: "bk_output_dir b = book_dir topic output_dir timestamp"
    and o: "generate_outline post topic num_chapters w = Inr (bk_chapters b, w1)"
    and m: "generate_metadata post topic (bk_chapters b) w1 = Inr (bk_metadata b, w2)"
    and i: "\<exists>v. bk_introduction b =
        fst (generate_introduction post topic (bk_chapters b) (bk_metadata b) v)"
    and c: "bk_conclusion b = fst (generate_conclusion post topic (bk_chapters b) (bk_metadata b) w8)"
    and bib: "generate_bibliography post topic w10 = Inr (bk_bibliography b, w11)"
    by blast
  note ok = generate_book_ok [OF gb]
  have "\<exists>v v'. chapter_loop post (book_dir topic output_dir timestamp)
                (enumerate 1 (bk_chapters b)) (Str []) v = Inr (bk_chapter_runs b, v')"
    using ok(3) by (simp add: out)
  moreover have "files w' (book_dir topic output_dir timestamp @ ''/full_book.md'') = Some (book_text b)"
    using ok(5) by (simp add: out)
  ultimately show ?thesis
    using gb o m i c bib ok(1,2) by blast
qed

theorem generate_book_completes_witness:
  "text_only always_raises \<and>
   (\<exists>b w'. generate_book always_raises ''T'' 2 (Some ''out'') [] (world0 ()) = Inr (b, w') \<and>
      bk_chapters b = [] \<and>
      files w' ''out/full_book.md'' = Some
        (''# Book on T\<newline>\<newline>**Author:** Author Not Specified\<newline>\<newline>**Annotation:**\<newline>\<newline>\<newline>\<newline>'' @
         ''# Introduction\<newline>\<newline>\<newline>\<newline># Conclusion\<newline>\<newline>\<newline>\<newline># Bibliography\<newline>\<newline>'')) \<and>
   text_only scripted_text \<and>
   (\<exists>b w'. generate_book scripted_text ''T'' 1 (Some ''out'') []
        (world0 [Some ''A'', None, Some ''Title: X'', Some ''I'', Some ''S'',
                 Some (''al'' @ [CHR 0x0D] @ ''pha''), Some ''sum'', Some ''C'', Some ''R1\<newline>R2'']) =
        Inr (b, w') \<and>
      bk_chapters b = [''A''] \<and>
      map cr_content (bk_chapter_runs b) = [''al'' @ [CHR 0x0D] @ ''pha''] \<and>
      files w' ''out/full_book.md'' = Some
        (''# X\<newline>\<newline>**Author:** Author Not Specified\<newline>\<newline>**Annotation:**\<newline>\<newline>\<newline>\<newline>'' @
         ''# Introduction\<newline>\<newline>I\<newline>\<newline>'' @
         ''# Chapter 1: A\<newline>\<newline>al\<newline>pha\<newline>\<newline>'' @
         ''# Conclusion\<newline>\<newline>C\<newline>\<newline>'' @
         ''# Bibliography\<newline>\<newline>1. R1\<newline>2. R2\<newline>''))"
  using generate_book_completes [OF text_only_always_raises, of "''T''" 2 "Some ''out''" "[]" "world0 ()"]
    generate_book_completes [OF text_only_scripted_text, of "''T''" 1 "Some ''out''" "[]"
      "world0 [Some ''A'', None, Some ''Title: X'', Some ''I'', Some ''S'',
                 Some (''al'' @ [CHR 0x0D] @ ''pha''), Some ''sum'', Some ''C'', Some ''R1\<newline>R2'']"]
  by (simp add: run_defs make_request_always_raises always_raises_def text_only_always_raises
        text_only_scripted_text book_text_def full_book_text_def chapter_texts_def chapter_text_def
        title_page_def numbered_references_def)

section \<open>What the stages return when their request fails\<close>

text \<open>
  C5, as it is written: \<open>generate_chapter_structure\<close> is the only stage with a
  hard-coded fallback. It fails: when every attempt of its request fails,
  \<open>generate_metadata\<close> returns the hard-coded title \<open>Book on\<close> followed by the
  topic, the hard-coded author \<open>Author Not Specified\<close> and the empty annotation.
\<close>

theorem generate_metadata_fallback:
  "make_request always_raises (metadata_prompt ''T'' [''A'']) 3 5 (world0 ()) =
     (Str [],
      \<lparr>service = (),
       events = [Post (metadata_prompt ''T'' [''A'']), Sleep 5,
                 Post (metadata_prompt ''T'' [''A'']), Sleep 5,
                 Post (metadata_prompt ''T'' [''A''])],
       files = Map.empty\<rparr>) \<and>
   generate_metadata always_raises ''T'' [''A''] (world0 ()) =
     Inr (\<lparr>title = ''Book on T'', author = ''Author Not Specified'', annotation = []\<rparr>,
          \<lparr>service = (),
           events = [Post (metadata_prompt ''T'' [''A'']), Sleep 5,
                     Post (metadata_prompt ''T'' [''A'']), Sleep 5,
                     Post (metadata_prompt ''T'' [''A''])],
           files = Map.empty\<rparr>)"
  by (simp add: generate_metadata_def parse_metadata_def default_metadata_def
        make_request_always_raises world0_def)

text \<open>
  C5, amended. When the request layer returns its empty result (or any value that counts
  as false), \<open>generate_chapter_structure\<close> returns exactly
  \<open>["Introduction", "Main Content", "Conclusion"]\<close>, for every chapter title and
  previous summary, and \<open>generate_metadata\<close> returns its hard-coded defaults. These
  are the two stages with hard-coded content for a failed request: the outline and the
  bibliography are then the empty list, and a section, a summary, the introduction and
  the conclusion are what the request layer returned, the empty text.
\<close>

theorem generate_chapter_structure_fallback:
  "(\<not> truthy (fst (make_request post (chapter_structure_prompt chapter_title previous_summary) 3 5 w)) \<longrightarrow>
      generate_chapter_structure post chapter_title previous_summary w =
        Inr ([''Introduction'', ''Main Content'', ''Conclusion''],
             snd (make_request post (chapter_structure_prompt chapter_title previous_summary) 3 5 w))) \<and>
   (\<not> truthy (fst (make_request post (metadata_prompt topic chapters) 3 5 w)) \<longrightarrow>
      generate_metadata post topic chapters w =
        Inr (\<lparr>title = ''Book on '' @ topic, author = ''Author Not Specified'', annotation = []\<rparr>,
             snd (make_request post (metadata_prompt topic chapters) 3 5 w))) \<and>
   (\<not> truthy (fst (make_request post (outline_prompt topic n) 3 5 w)) \<longrightarrow>
      generate_outline post topic n w =
        Inr ([], snd (make_request post (outline_prompt topic n) 3 5 w))) \<and>
   (\<not> truthy (fst (make_request post (bibliography_prompt topic) 3 5 w)) \<longrightarrow>
      generate_bibliography post topic w =
        Inr ([], snd (make_request post (bibliography_prompt topic) 3 5 w))) \<and>
   generate_chapter_chunk post chapter_title section_title previous_content w =
     make_request post (chapter_chunk_prompt chapter_title section_title previous_content) 3 5 w \<and>
   summarize_chapter post chapter_content w =
     make_request post (summary_prompt chapter_content) 3 5 w \<and>
   generate_introduction post topic chapters metadata w =
     make_request post (introduction_prompt topic chapters metadata) 3 5 w \<and>
   generate_conclusion post topic chapters metadata w =
     make_request post (conclusion_prompt topic chapters metadata) 3 5 w"
  by (simp add: generate_chapter_structure_def generate_outline_failed generate_bibliography_def
        generate_chapter_chunk_def summarize_chapter_def generate_introduction_def
        generate_conclusion_def generate_metadata_def parse_metadata_def default_metadata_def
        Let_def split_beta)

theorem generate_chapter_structure_fallback_witness:
  "\<not> truthy (fst (make_request always_raises (chapter_structure_prompt ''Arches'' (Str ''So far.'')) 3 5
       (world0 ()))) \<and>
   (\<exists>w'. generate_chapter_structure always_raises ''Arches'' (Str ''So far.'') (world0 ()) =
      Inr ([''Introduction'', ''Main Content'', ''Conclusion''], w')) \<and>
   (\<exists>w'. generate_metadata always_raises ''T'' [] (world0 ()) =
      Inr (\<lparr>title = ''Book on T'', author = ''Author Not Specified'', annotation = []\<rparr>, w')) \<and>
   (\<exists>w'. generate_outline always_raises ''T'' 2 (world0 ()) = Inr ([], w')) \<and>
   (\<exists>w'. generate_bibliography always_raises ''T'' (world0 ()) = Inr ([], w')) \<and>
   fst (generate_chapter_chunk always_raises ''Arches'' ''Introduction'' [] (world0 ())) = Str [] \<and>
   fst (summarize_chapter always_raises ''text'' (world0 ())) = Str [] \<and>
   fst (generate_introduction always_raises ''T'' [] (default_metadata ''T'') (world0 ())) = Str [] \<and>
   fst (generate_conclusion always_raises ''T'' [] (default_metadata ''T'') (world0 ())) = Str []"
  using generate_chapter_structure_fallback [where post = always_raises and w = "world0 ()"
    and chapter_title = "''Arches''" and previous_summary = "Str ''So far.''" and topic = "''T''"
    and n = 2 and section_title = "''Introduction''" and previous_content = "[]"
    and chapter_content = "''text''" and chapters = "[]" and metadata = "default_metadata ''T''"]
  by (simp add: make_request_always_raises)

section \<open>Parsing the metadata\<close>

lemma parse_metadata_labelled:
  "parse_metadata ''Bridges''
     (Str ''Title: Spans of Stone\<newline>Author: Jane Doe\<newline>Annotation: On bridges.'') =
   Inr \<lparr>title = ''Spans of Stone'', author = ''Jane Doe'', annotation = ''On bridges.''\<rparr>"
  by (simp add: parse_metadata_def default_metadata_def metadata_line_def startswith_def
        str_strip_def isspace_def str_replace.simps)

lemma parse_metadata_no_author:
  "parse_metadata ''Bridges'' (Str ''Title: Spans of Stone\<newline>Annotation: On bridges.'') =
   Inr \<lparr>title = ''Spans of Stone'', author = ''Author Not Specified'', annotation = ''On bridges.''\<rparr>"
  by (simp add: parse_metadata_def default_metadata_def metadata_line_def startswith_def
        str_strip_def isspace_def str_replace.simps)

text \<open>
  C6. For the response \<open>Title: X\<close>, \<open>Author: Y\<close>, \<open>Annotation: Z\<close> the metadata
  should be \<open>X\<close>, \<open>Y\<close> and \<open>Z\<close>, stripped, as the two lemmas above show for
  ordinary values and for a missing author. The code removes the label with
  \<open>line.replace("Title:", "")\<close>, which removes every occurrence of the label in the
  line and not only the prefix, so a title that contains the text \<open>Title:\<close> loses
  it: for the response \<open>Title: A Title: B\<close>, \<open>Author: Y\<close>, \<open>Annotation: Z\<close> the
  title returned is \<open>A  B\<close>, not \<open>A Title: B\<close>.
\<close>

theorem generate_metadata_label_in_value:
  "generate_metadata scripted ''T'' []
     (world0 [Response 200 (Some (Str ''Title: A Title: B\<newline>Author: Y\<newline>Annotation: Z''))]) =
   Inr (\<lparr>title = ''A  B'', author = ''Y'', annotation = ''Z''\<rparr>,
        \<lparr>service = [], events = [Post (metadata_prompt ''T'' [])], files = Map.empty\<rparr>)"
  by (simp add: generate_metadata_def make_request_def upt_0_3 scripted_def world0_def
        parse_metadata_def default_metadata_def metadata_line_def startswith_def
        str_strip_def isspace_def str_replace.simps)

text \<open>
  C7, as it is written: every line that starts with none of the three prefixes is
  appended to the running annotation. It fails: in the response \<open>Preface\<close>,
  \<open>Title: X\<close> the first line has no known prefix, and the annotation returned is empty.
\<close>

theorem generate_metadata_unlabelled_dropped:
  "\<not> known_label ''Preface'' \<and>
   str_split CHR 0x0A (str_strip ''Preface\<newline>Title: X'') = [''Preface'', ''Title: X''] \<and>
   generate_metadata scripted ''T'' []
     (world0 [Response 200 (Some (Str ''Preface\<newline>Title: X''))]) =
   Inr (\<lparr>title = ''X'', author = ''Author Not Specified'', annotation = []\<rparr>,
        \<lparr>service = [], events = [Post (metadata_prompt ''T'' [])], files = Map.empty\<rparr>)"
  by (simp add: generate_metadata_def make_request_def upt_0_3 scripted_def world0_def
        parse_metadata_def default_metadata_def metadata_line_def startswith_def known_label_def
        str_strip_def isspace_def str_replace.simps)

lemma metadata_line_unlabelled:
  "\<not> known_label line \<Longrightarrow>
   metadata_line m line =
     (if annotation m = [] then m else m\<lparr>annotation := annotation m @ '' '' @ str_strip line\<rparr>)"
  by (simp add: metadata_line_def known_label_def)

text \<open>
  C7, amended. Consecutive lines that start with none of the three prefixes are
  appended to the running annotation, each stripped and after one space, when the
  running annotation is not empty; when it is empty they are dropped and the metadata
  stay as they are. In particular a non-empty response with no labelled line at all
  gives the defaults. The parse of a text never fails: it returns metadata for every
  text \<open>t\<close>.
\<close>

theorem metadata_unlabelled_lines:
  assumes "\<forall>line \<in> set ls. \<not> known_label line"
  shows "foldl metadata_line m ls =
           (if annotation m = [] then m
            else m\<lparr>annotation := annotation m @ concat (map (\<lambda>line. '' '' @ str_strip line) ls)\<rparr>) \<and>
         (r \<noteq> [] \<and> str_split CHR 0x0A (str_strip r) = ls \<longrightarrow>
            parse_metadata topic (Str r) = Inr (default_metadata topic)) \<and>
         (\<exists>metadata. parse_metadata topic (Str t) = Inr metadata)"
proof -
  have loop: "foldl metadata_line m ls =
           (if annotation m = [] then m
            else m\<lparr>annotation := annotation m @ concat (map (\<lambda>line. '' '' @ str_strip line) ls)\<rparr>)"
    for m
    using assms
  proof (induction ls arbitrary: m)
    case Nil
    then show ?case by simp
  next
    case (Cons line ls)
    then show ?case by (simp add: metadata_line_unlabelled)
  qed
  show ?thesis
    by (simp add: loop parse_metadata_def default_metadata_def)
qed

theorem metadata_unlabelled_lines_witness:
  "\<not> known_label ''spans and'' \<and> \<not> known_label ''  arches  '' \<and>
   foldl metadata_line \<lparr>title = ''t'', author = ''a'', annotation = ''On''\<rparr>
     [''spans and'', ''  arches  ''] =
   \<lparr>title = ''t'', author = ''a'', annotation = ''On spans and arches''\<rparr> \<and>
   parse_metadata ''T'' (Str ''spans and\<newline>  arches'') = Inr (default_metadata ''T'')"
proof -
  have u: "\<forall>line \<in> set [''spans and'', ''  arches  '']. \<not> known_label line"
    by (simp add: known_label_def startswith_def)
  have v: "\<forall>line \<in> set [''spans and'', ''  arches'']. \<not> known_label line"
    by (simp add: known_label_def startswith_def)
  show ?thesis
    using u metadata_unlabelled_lines [OF u, of "\<lparr>title = ''t'', author = ''a'', annotation = ''On''\<rparr>" "[]" "''T''"]
      metadata_unlabelled_lines [OF v, of "default_metadata ''T''" "''spans and\<newline>  arches''" "''T''"]
    by (simp add: str_strip_def isspace_def)
qed

section \<open>What flows from one chapter into the next, and from one section into the next\<close>

lemma chapter_run_sections:
  fixes post :: "'s \<Rightarrow> string \<Rightarrow> post_result \<times> 's"
  assumes "chapter_loop post out xs prev w = Inr (runs, w')" and "r \<in> set runs"
  shows "length (cr_section_runs r) = length (cr_sections r)"
    and "cr_content r = concat (map sr_content (cr_section_runs r))"
    and "\<exists>v. cr_summary r = fst (make_request post (summary_prompt (cr_content r)) 3 5 v)"
    and "\<exists>v v'. generate_chapter_structure post (cr_title r) (cr_previous_summary r) v =
           Inr (cr_sections r, v')"
    and "map sr_title (cr_section_runs r) = cr_sections r"
    and "k < length (cr_section_runs r) \<Longrightarrow>
         sr_previous_content (cr_section_runs r ! k) =
           (if accumulated_before r k = [] then [] else slice_from (accumulated_before r k) (- 1000))"
    and "k < length (cr_section_runs r) \<Longrightarrow>
         \<exists>v. fst (make_request post
                (chapter_chunk_prompt (cr_title r) (sr_title (cr_section_runs r ! k))
                   (sr_previous_content (cr_section_runs r ! k))) 3 5 v) =
           Str (sr_content (cr_section_runs r ! k))"
proof -
  obtain i ch p u u' where b: "chapter_body post out i ch p u = Inr (r, u')"
    using chapter_loop_runs_body [OF assms] by blast
  from chapter_body_Inr [OF b] obtain secs w1 full sruns w3 where
    g: "generate_chapter_structure post ch p u = Inr (secs, w1)"
    and sl: "section_loop post (chapter_dir out i) ch (enumerate 1 secs) []
       (write_file (chapter_dir out i @ ''/README.md'') (chapter_readme i ch secs) w1) =
       Inr (full, sruns, w3)"
    and r: "r = \<lparr>cr_title = ch, cr_previous_summary = p, cr_sections = secs,
          cr_section_runs = sruns, cr_content = full,
          cr_summary = fst (summarize_chapter post full w3)\<rparr>"
    by blast
  show len: "length (cr_section_runs r) = length (cr_sections r)"
    using section_loop_length [OF sl] by (simp add: r)
  show "cr_content r = concat (map sr_content (cr_section_runs r))"
    using section_loop_full [OF sl] by (simp add: r)
  show "\<exists>v. cr_summary r = fst (make_request post (summary_prompt (cr_content r)) 3 5 v)"
    by (auto simp: r summarize_chapter_def)
  show "\<exists>v v'. generate_chapter_structure post (cr_title r) (cr_previous_summary r) v =
           Inr (cr_sections r, v')"
    using g by (auto simp: r)
  show "map sr_title (cr_section_runs r) = cr_sections r"
    using section_loop_titles [OF sl] by (simp add: r)
  {
    assume k: "k < length (cr_section_runs r)"
    then have k': "k < length (enumerate 1 secs)" using len by (simp add: r)
    show "sr_previous_content (cr_section_runs r ! k) =
           (if accumulated_before r k = [] then [] else slice_from (accumulated_before r k) (- 1000))"
      using section_loop_previous [OF sl k'] by (simp add: accumulated_before_def r)
    show "\<exists>v. fst (make_request post
                (chapter_chunk_prompt (cr_title r) (sr_title (cr_section_runs r ! k))
                   (sr_previous_content (cr_section_runs r ! k))) 3 5 v) =
           Str (sr_content (cr_section_runs r ! k))"
      using section_loop_calls [OF sl k'] by (simp add: r generate_chapter_chunk_def)
  }
qed

lemma length_slice_from_1000: "length (slice_from xs (- 1000)) = min 1000 (length xs)"
  by (simp add: slice_from_1000)

lemma length_slice_from_500: "length (slice_from xs (- 500)) = min 500 (length xs)"
  by (simp add: slice_from_500)

lemma chunk_context_window:
  "chunk_context (if acc = [] then [] else slice_from acc (- 1000)) =
     (if acc = [] then []
      else ''Previous content: '' @ slice_from acc (- 500) @ '' (continuation)'')"
proof (cases "acc = []")
  case True
  then show ?thesis by (simp add: chunk_context_def)
next
  case False
  then have "slice_from acc (- 1000) \<noteq> []"
    by (cases acc) (auto simp: slice_from_1000)
  then show ?thesis
    using False by (simp add: chunk_context_def slice_500_of_1000)
qed

lemma chapter_structure_prompt_text:
  "chapter_structure_prompt chapter_title previous_summary =
     ''\<newline>        '' @
     (if truthy previous_summary
      then ''Summary of the previous chapter: '' @ py_str previous_summary @ ''\<newline>''
      else []) @
     structure_instructions chapter_title"
  by (simp add: chapter_structure_prompt_def structure_context_def structure_instructions_def)

lemma summary_prompt_text:
  "summary_prompt chapter_content =
     ''\<newline>        Create a summary (150-200 words) of the following text:\<newline>        \<newline>        '' @
     take 3000 chapter_content @ summary_requirements"
  by (simp add: summary_prompt_def summary_requirements_def slice_to_def)

lemma chapter_chunk_prompt_text:
  "chapter_chunk_prompt chapter_title section_title
     (if acc = [] then [] else slice_from acc (- 1000)) =
     ''\<newline>        '' @
     (if acc = [] then []
      else ''Previous content: '' @ drop (length acc - 500) acc @ '' (continuation)'') @
     chunk_instructions chapter_title section_title"
  unfolding chapter_chunk_prompt_def chunk_context_window
  by (simp add: chunk_instructions_def slice_from_500)

lemma chapter_requests_posted:
  assumes "subseq (concat (map chapter_requests runs)) es" and "r \<in> set runs"
    and "e \<in> set (chapter_requests r)"
  shows "e \<in> set es"
proof -
  have "e \<in> set (concat (map chapter_requests runs))"
    using assms(2,3) by auto
  from list_emb_set [OF assms(1) this] show ?thesis by blast
qed

text \<open>
  C3. In a run of \<open>generate_book\<close>, the structure request of the first chapter is
  made with the empty previous summary: its prompt holds no context, only the
  instructions with the chapter's title, and it is among the requests posted. The
  structure request of chapter \<open>i + 2\<close> (the index \<open>i\<close> counts from 0) is made with
  the summary of chapter \<open>i + 1\<close> as its previous summary: its prompt holds the line
  \<open>Summary of the previous chapter:\<close> with the text of that summary (no such line
  when the summary is empty), followed by the instructions with the chapter's title,
  and nothing else; it is among the requests posted. That summary is what the request
  layer returned for the summary prompt, which holds the first 3000 characters of the
  chapter's full content, the concatenation of all its sections. Hence, for two runs
  on the same topic with the same chapter titles, with any services, output directories
  and chapter counts: if the summaries of a chapter agree, the prompts of the next
  chapter's structure request are identical. The requests of each chapter (structure,
  sections, summary) are posted in this order, chapter after chapter.
\<close>

theorem previous_summary_only:
  fixes post1 :: "'s \<Rightarrow> string \<Rightarrow> post_result \<times> 's"
    and post2 :: "'t \<Rightarrow> string \<Rightarrow> post_result \<times> 't"
  assumes run1: "generate_book post1 topic n1 dir1 ts1 w1 = Inr (b1, w1')"
    and run2: "generate_book post2 topic n2 dir2 ts2 w2 = Inr (b2, w2')"
    and titles: "bk_chapters b1 = bk_chapters b2"
  shows "(bk_chapters b1 \<noteq> [] \<longrightarrow>
            cr_previous_summary (bk_chapter_runs b1 ! 0) = Str [] \<and>
            chapter_structure_prompt (cr_title (bk_chapter_runs b1 ! 0))
              (cr_previous_summary (bk_chapter_runs b1 ! 0)) =
              ''\<newline>        '' @ structure_instructions (bk_chapters b1 ! 0) \<and>
            Post (''\<newline>        '' @ structure_instructions (bk_chapters b1 ! 0)) \<in> set (events w1')) \<and>
         (Suc i < length (bk_chapters b1) \<longrightarrow>
            cr_previous_summary (bk_chapter_runs b1 ! Suc i) = cr_summary (bk_chapter_runs b1 ! i) \<and>
            chapter_structure_prompt (cr_title (bk_chapter_runs b1 ! Suc i))
              (cr_previous_summary (bk_chapter_runs b1 ! Suc i)) =
              ''\<newline>        '' @
              (if truthy (cr_summary (bk_chapter_runs b1 ! i))
               then ''Summary of the previous chapter: '' @
                    py_str (cr_summary (bk_chapter_runs b1 ! i)) @ ''\<newline>''
               else []) @
              structure_instructions (bk_chapters b1 ! Suc i) \<and>
            Post (''\<newline>        '' @
                  (if truthy (cr_summary (bk_chapter_runs b1 ! i))
                   then ''Summary of the previous chapter: '' @
                        py_str (cr_summary (bk_chapter_runs b1 ! i)) @ ''\<newline>''
                   else []) @
                  structure_instructions (bk_chapters b1 ! Suc i)) \<in> set (events w1')) \<and>
         (i < length (bk_chapters b1) \<longrightarrow>
            cr_title (bk_chapter_runs b1 ! i) = bk_chapters b1 ! i \<and>
            (\<exists>v v'. generate_chapter_structure post1 (cr_title (bk_chapter_runs b1 ! i))
                      (cr_previous_summary (bk_chapter_runs b1 ! i)) v =
                    Inr (cr_sections (bk_chapter_runs b1 ! i), v')) \<and>
            map sr_title (cr_section_runs (bk_chapter_runs b1 ! i)) =
              cr_sections (bk_chapter_runs b1 ! i) \<and>
            cr_content (bk_chapter_runs b1 ! i) =
              concat (map sr_content (cr_section_runs (bk_chapter_runs b1 ! i))) \<and>
            summary_prompt (cr_content (bk_chapter_runs b1 ! i)) =
              ''\<newline>        Create a summary (150-200 words) of the following text:\<newline>        \<newline>        '' @
              take 3000 (cr_content (bk_chapter_runs b1 ! i)) @ summary_requirements \<and>
            (\<exists>v. cr_summary (bk_chapter_runs b1 ! i) =
               fst (make_request post1
                      (''\<newline>        Create a summary (150-200 words) of the following text:\<newline>        \<newline>        '' @
                       take 3000 (cr_content (bk_chapter_runs b1 ! i)) @ summary_requirements) 3 5 v))) \<and>
         (Suc i < length (bk_chapters b1) \<and>
          cr_summary (bk_chapter_runs b1 ! i) = cr_summary (bk_chapter_runs b2 ! i) \<longrightarrow>
            chapter_structure_prompt (cr_title (bk_chapter_runs b1 ! Suc i))
              (cr_previous_summary (bk_chapter_runs b1 ! Suc i)) =
            chapter_structure_prompt (cr_title (bk_chapter_runs b2 ! Suc i))
              (cr_previous_summary (bk_chapter_runs b2 ! Suc i))) \<and>
         subseq (concat (map chapter_requests (bk_chapter_runs b1))) (events w1')"
proof -
  note ok1 = generate_book_ok [OF run1]
  note ok2 = generate_book_ok [OF run2]
  obtain v1 v1' where loop1: "chapter_loop post1 (bk_output_dir b1) (enumerate 1 (bk_chapters b1))
      (Str []) v1 = Inr (bk_chapter_runs b1, v1')"
    using ok1(3) by blast
  obtain v2 v2' where loop2: "chapter_loop post2 (bk_output_dir b2) (enumerate 1 (bk_chapters b2))
      (Str []) v2 = Inr (bk_chapter_runs b2, v2')"
    using ok2(3) by blast
  have first: "cr_previous_summary (bk_chapter_runs b1 ! 0) = Str []" if "bk_chapters b1 \<noteq> []"
  proof -
    have "enumerate 1 (bk_chapters b1) \<noteq> []"
      using that by (cases "bk_chapters b1") simp_all
    from chapter_loop_first [OF loop1 this] show ?thesis .
  qed
  have next1: "cr_previous_summary (bk_chapter_runs b1 ! Suc i) = cr_summary (bk_chapter_runs b1 ! i)"
    if "Suc i < length (bk_chapters b1)"
    using that by (intro chapter_loop_next [OF loop1]) simp
  have next2: "cr_previous_summary (bk_chapter_runs b2 ! Suc i) = cr_summary (bk_chapter_runs b2 ! i)"
    if "Suc i < length (bk_chapters b2)"
    using that by (intro chapter_loop_next [OF loop2]) simp
  have title1: "cr_title (bk_chapter_runs b1 ! k) = bk_chapters b1 ! k" if "k < length (bk_chapters b1)" for k
    using that ok1(1) nth_map [of k "bk_chapter_runs b1" cr_title] ok1(2) by simp
  have title2: "cr_title (bk_chapter_runs b2 ! k) = bk_chapters b2 ! k" if "k < length (bk_chapters b2)" for k
    using that ok2(1) nth_map [of k "bk_chapter_runs b2" cr_title] ok2(2) by simp
  have mem: "bk_chapter_runs b1 ! k \<in> set (bk_chapter_runs b1)" if "k < length (bk_chapters b1)" for k
    using that ok1(1) by simp
  have posted: "Post (chapter_structure_prompt (cr_title (bk_chapter_runs b1 ! k))
      (cr_previous_summary (bk_chapter_runs b1 ! k))) \<in> set (events w1')"
    if "k < length (bk_chapters b1)" for k
    by (rule chapter_requests_posted [OF ok1(4) mem [OF that]]) (simp add: chapter_requests_def)
  have c0: "cr_previous_summary (bk_chapter_runs b1 ! 0) = Str [] \<and>
            chapter_structure_prompt (cr_title (bk_chapter_runs b1 ! 0))
              (cr_previous_summary (bk_chapter_runs b1 ! 0)) =
              ''\<newline>        '' @ structure_instructions (bk_chapters b1 ! 0) \<and>
            Post (''\<newline>        '' @ structure_instructions (bk_chapters b1 ! 0)) \<in> set (events w1')"
    if ne: "bk_chapters b1 \<noteq> []"
  proof -
    have 0: "0 < length (bk_chapters b1)" using ne by simp
    have p: "chapter_structure_prompt (cr_title (bk_chapter_runs b1 ! 0))
              (cr_previous_summary (bk_chapter_runs b1 ! 0)) =
              ''\<newline>        '' @ structure_instructions (bk_chapters b1 ! 0)"
      unfolding chapter_structure_prompt_text by (simp add: first [OF ne] title1 [OF 0])
    show ?thesis
      using first [OF ne] p posted [OF 0] by simp
  qed
  have c1: "cr_previous_summary (bk_chapter_runs b1 ! Suc i) = cr_summary (bk_chapter_runs b1 ! i) \<and>
            chapter_structure_prompt (cr_title (bk_chapter_runs b1 ! Suc i))
              (cr_previous_summary (bk_chapter_runs b1 ! Suc i)) =
              ''\<newline>        '' @
              (if truthy (cr_summary (bk_chapter_runs b1 ! i))
               then ''Summary of the previous chapter: '' @
                    py_str (cr_summary (bk_chapter_runs b1 ! i)) @ ''\<newline>''
               else []) @
              structure_instructions (bk_chapters b1 ! Suc i) \<and>
            Post (''\<newline>        '' @
                  (if truthy (cr_summary (bk_chapter_runs b1 ! i))
                   then ''Summary of the previous chapter: '' @
                        py_str (cr_summary (bk_chapter_runs b1 ! i)) @ ''\<newline>''
                   else []) @
                  structure_instructions (bk_chapters b1 ! Suc i)) \<in> set (events w1')"
    if s: "Suc i < length (bk_chapters b1)"
  proof -
    have p: "chapter_structure_prompt (cr_title (bk_chapter_runs b1 ! Suc i))
              (cr_previous_summary (bk_chapter_runs b1 ! Suc i)) =
              ''\<newline>        '' @
              (if truthy (cr_summary (bk_chapter_runs b1 ! i))
               then ''Summary of the previous chapter: '' @
                    py_str (cr_summary (bk_chapter_runs b1 ! i)) @ ''\<newline>''
               else []) @
              structure_instructions (bk_chapters b1 ! Suc i)"
      unfolding chapter_structure_prompt_text next1 [OF s] title1 [OF s] by (rule refl)
    show ?thesis
      using next1 [OF s] p posted [OF s] by (simp only: simp_thms)
  qed
  have c2: "cr_title (bk_chapter_runs b1 ! i) = bk_chapters b1 ! i \<and>
            (\<exists>v v'. generate_chapter_structure post1 (cr_title (bk_chapter_runs b1 ! i))
                      (cr_previous_summary (bk_chapter_runs b1 ! i)) v =
                    Inr (cr_sections (bk_chapter_runs b1 ! i), v')) \<and>
            map sr_title (cr_section_runs (bk_chapter_runs b1 ! i)) =
              cr_sections (bk_chapter_runs b1 ! i) \<and>
            cr_content (bk_chapter_runs b1 ! i) =
              concat (map sr_content (cr_section_runs (bk_chapter_runs b1 ! i))) \<and>
            summary_prompt (cr_content (bk_chapter_runs b1 ! i)) =
              ''\<newline>        Create a summary (150-200 words) of the following text:\<newline>        \<newline>        '' @
              take 3000 (cr_content (bk_chapter_runs b1 ! i)) @ summary_requirements \<and>
            (\<exists>v. cr_summary (bk_chapter_runs b1 ! i) =
               fst (make_request post1
                      (''\<newline>        Create a summary (150-200 words) of the following text:\<newline>        \<newline>        '' @
                       take 3000 (cr_content (bk_chapter_runs b1 ! i)) @ summary_requirements) 3 5 v))"
    if s: "i < length (bk_chapters b1)"
  proof -
    note facts = chapter_run_sections [OF loop1 mem [OF s]]
    show ?thesis
      using title1 [OF s] facts(4) facts(5) facts(2) facts(3)
      unfolding summary_prompt_text by (intro conjI) (rule refl | assumption)+
  qed
  have same: "chapter_structure_prompt (cr_title (bk_chapter_runs b1 ! Suc i))
              (cr_previous_summary (bk_chapter_runs b1 ! Suc i)) =
            chapter_structure_prompt (cr_title (bk_chapter_runs b2 ! Suc i))
              (cr_previous_summary (bk_chapter_runs b2 ! Suc i))"
    if "Suc i < length (bk_chapters b1)"
      and "cr_summary (bk_chapter_runs b1 ! i) = cr_summary (bk_chapter_runs b2 ! i)"
  proof -
    have "Suc i < length (bk_chapters b2)" using that(1) titles by simp
    then show ?thesis
      using that next1 next2 title1 [of "Suc i"] title2 [of "Suc i"] titles by simp
  qed
  show ?thesis
    using c0 c1 c2 same ok1(4) by blast
qed

theorem previous_summary_only_witness:
  "\<exists>b1 w1' b2 w2'.
     generate_book scripted ''T'' 2 (Some ''out'') [] (world0 script1) = Inr (b1, w1') \<and>
     generate_book scripted ''T'' 2 (Some ''elsewhere'') [] (world0 script2) = Inr (b2, w2') \<and>
     bk_chapters b1 = bk_chapters b2 \<and>
     cr_previous_summary (bk_chapter_runs b1 ! 0) = Str [] \<and>
     cr_content (bk_chapter_runs b1 ! 0) \<noteq> cr_content (bk_chapter_runs b2 ! 0) \<and>
     cr_summary (bk_chapter_runs b1 ! 0) = cr_summary (bk_chapter_runs b2 ! 0) \<and>
     cr_previous_summary (bk_chapter_runs b1 ! 1) = Str ''sumA'' \<and>
     Post (''\<newline>        '' @ structure_instructions ''A'') \<in> set (events w1') \<and>
     Post (''\<newline>        Summary of the previous chapter: sumA\<newline>'' @ structure_instructions ''B'')
       \<in> set (events w1') \<and>
     chapter_structure_prompt (cr_title (bk_chapter_runs b1 ! 1))
       (cr_previous_summary (bk_chapter_runs b1 ! 1)) =
     chapter_structure_prompt (cr_title (bk_chapter_runs b2 ! 1))
       (cr_previous_summary (bk_chapter_runs b2 ! 1))"
proof -
  obtain b1 w1' where run1: "generate_book scripted ''T'' 2 (Some ''out'') [] (world0 script1) = Inr (b1, w1')"
    and ch1: "bk_chapters b1 = [''A'', ''B'']"
    and runs1: "bk_chapter_runs b1 =
       [\<lparr>cr_title = ''A'', cr_previous_summary = Str [], cr_sections = [''S1'', ''S2''],
         cr_section_runs =
           [\<lparr>sr_title = ''S1'', sr_previous_content = [], sr_content = ''alpha''\<rparr>,
            \<lparr>sr_title = ''S2'', sr_previous_content = ''alpha'', sr_content = ''beta''\<rparr>],
         cr_content = ''alphabeta'', cr_summary = Str ''sumA''\<rparr>,
        \<lparr>cr_title = ''B'', cr_previous_summary = Str ''sumA'', cr_sections = [''S''],
         cr_section_runs =
           [\<lparr>sr_title = ''S'', sr_previous_content = [], sr_content = ''gamma''\<rparr>],
         cr_content = ''gamma'', cr_summary = Str ''sumB''\<rparr>]"
    using small_run by blast
  obtain b2 w2' where run2: "generate_book scripted ''T'' 2 (Some ''elsewhere'') [] (world0 script2) = Inr (b2, w2')"
    and ch2: "bk_chapters b2 = [''A'', ''B'']"
    and runs2: "bk_chapter_runs b2 =
       [\<lparr>cr_title = ''A'', cr_previous_summary = Str [], cr_sections = [''S''],
         cr_section_runs =
           [\<lparr>sr_title = ''S'', sr_previous_content = [], sr_content = ''delta''\<rparr>],
         cr_content = ''delta'', cr_summary = Str ''sumA''\<rparr>,
        \<lparr>cr_title = ''B'', cr_previous_summary = Str ''sumA'', cr_sections = [''S''],
         cr_section_runs =
           [\<lparr>sr_title = ''S'', sr_previous_content = [], sr_content = ''epsilon''\<rparr>],
         cr_content = ''epsilon'', cr_summary = Str ''sumC''\<rparr>]"
    using small_run2 by blast
  have titles: "bk_chapters b1 = bk_chapters b2"
    by (simp add: ch1 ch2)
  show ?thesis
    using run1 run2 previous_summary_only [OF run1 run2 titles, of 0]
    by (simp add: ch1 ch2 runs1 runs2)
qed

text \<open>
  C8. In a run of \<open>generate_book\<close>, take any chapter and its section number \<open>k\<close>
  (from 0), and let the accumulated text be the concatenation of the texts of that
  chapter's sections before \<open>k\<close>: it is empty for the first section of every
  chapter, so the accumulation starts afresh with each chapter. The argument
  \<open>previous_content\<close> passed to \<open>generate_chapter_chunk\<close> is empty when the
  accumulated text is empty, and its last 1000 characters otherwise (all of it when it
  is shorter). The prompt of the section request, which is among the requests posted,
  holds no context in the first case; in the second it holds, between
  \<open>Previous content:\<close> and \<open>(continuation)\<close>, the last 500 characters of the
  accumulated text (all of it when it is shorter), and besides that only the
  instructions with the two titles.
\<close>

theorem section_context_window:
  fixes post :: "'s \<Rightarrow> string \<Rightarrow> post_result \<times> 's"
  assumes "generate_book post topic num_chapters output_dir timestamp w = Inr (b, w')"
    and "r \<in> set (bk_chapter_runs b)"
    and "k < length (cr_section_runs r)"
  shows "sr_previous_content (cr_section_runs r ! k) =
           (if accumulated_before r k = [] then []
            else drop (length (accumulated_before r k) - 1000) (accumulated_before r k)) \<and>
         length (sr_previous_content (cr_section_runs r ! k)) =
           min 1000 (length (accumulated_before r k)) \<and>
         suffix (sr_previous_content (cr_section_runs r ! k)) (accumulated_before r k) \<and>
         chapter_chunk_prompt (cr_title r) (sr_title (cr_section_runs r ! k))
             (sr_previous_content (cr_section_runs r ! k)) =
           ''\<newline>        '' @
           (if accumulated_before r k = [] then []
            else ''Previous content: '' @
                 drop (length (accumulated_before r k) - 500) (accumulated_before r k) @
                 '' (continuation)'') @
           chunk_instructions (cr_title r) (sr_title (cr_section_runs r ! k)) \<and>
         Post (''\<newline>        '' @
               (if accumulated_before r k = [] then []
                else ''Previous content: '' @
                     drop (length (accumulated_before r k) - 500) (accumulated_before r k) @
                     '' (continuation)'') @
               chunk_instructions (cr_title r) (sr_title (cr_section_runs r ! k)))
           \<in> set (events w') \<and>
         length (drop (length (accumulated_before r k) - 500) (accumulated_before r k)) =
           min 500 (length (accumulated_before r k)) \<and>
         suffix (drop (length (accumulated_before r k) - 500) (accumulated_before r k))
           (accumulated_before r k) \<and>
         accumulated_before r 0 = [] \<and>
         (\<exists>v. fst (make_request post
                  (chapter_chunk_prompt (cr_title r) (sr_title (cr_section_runs r ! k))
                     (sr_previous_content (cr_section_runs r ! k))) 3 5 v) =
               Str (sr_content (cr_section_runs r ! k))) \<and>
         cr_content r = concat (map sr_content (cr_section_runs r)) \<and>
         subseq (concat (map chapter_requests (bk_chapter_runs b))) (events w')"
proof -
  note ok = generate_book_ok [OF assms(1)]
  obtain v v' where loop: "chapter_loop post (bk_output_dir b) (enumerate 1 (bk_chapters b))
      (Str []) v = Inr (bk_chapter_runs b, v')"
    using ok(3) by blast
  note facts = chapter_run_sections [OF loop assms(2)]
  define acc where "acc = accumulated_before r k"
  have prev0: "sr_previous_content (cr_section_runs r ! k) =
           (if acc = [] then [] else slice_from acc (- 1000))"
    unfolding acc_def using facts(6) [OF assms(3)] .
  have prev: "sr_previous_content (cr_section_runs r ! k) =
           (if acc = [] then [] else drop (length acc - 1000) acc)"
    unfolding prev0 by (simp add: slice_from_1000)
  have prompt: "chapter_chunk_prompt (cr_title r) (sr_title (cr_section_runs r ! k))
             (sr_previous_content (cr_section_runs r ! k)) =
           ''\<newline>        '' @
           (if acc = [] then []
            else ''Previous content: '' @ drop (length acc - 500) acc @ '' (continuation)'') @
           chunk_instructions (cr_title r) (sr_title (cr_section_runs r ! k))"
    unfolding prev0 by (rule chapter_chunk_prompt_text)
  have "Post (chapter_chunk_prompt (cr_title r) (sr_title (cr_section_runs r ! k))
             (sr_previous_content (cr_section_runs r ! k))) \<in> set (events w')"
    by (rule chapter_requests_posted [OF ok(4) assms(2)])
       (use assms(3) in \<open>auto simp: chapter_requests_def\<close>)
  then have posted: "Post (''\<newline>        '' @
           (if acc = [] then []
            else ''Previous content: '' @ drop (length acc - 500) acc @ '' (continuation)'') @
           chunk_instructions (cr_title r) (sr_title (cr_section_runs r ! k))) \<in> set (events w')"
    unfolding prompt .
  have len: "length (sr_previous_content (cr_section_runs r ! k)) = min 1000 (length acc)"
    unfolding prev by (auto simp: min_def)
  have suf0: "suffix (sr_previous_content (cr_section_runs r ! k)) acc"
    unfolding prev by (simp add: suffix_drop)
  have len5: "length (drop (length acc - 500) acc) = min 500 (length acc)"
    by (auto simp: min_def)
  have suf: "suffix (drop (length acc - 500) acc) acc"
    by (simp add: suffix_drop)
  have zero: "accumulated_before r 0 = []"
    by (simp add: accumulated_before_def)
  show ?thesis
    using prev len suf0 prompt posted len5 suf zero facts(7) [OF assms(3)] facts(2) ok(4)
    unfolding acc_def by (intro conjI) assumption+
qed

theorem section_context_window_witness:
  "\<exists>b w'. generate_book scripted ''T'' 2 (Some ''out'') [] (world0 script1) = Inr (b, w') \<and>
     length (cr_section_runs (bk_chapter_runs b ! 0)) = 2 \<and>
     sr_previous_content (cr_section_runs (bk_chapter_runs b ! 0) ! 0) = [] \<and>
     accumulated_before (bk_chapter_runs b ! 0) 1 = ''alpha'' \<and>
     sr_previous_content (cr_section_runs (bk_chapter_runs b ! 0) ! 1) = ''alpha'' \<and>
     Post (''\<newline>        Previous content: alpha (continuation)'' @ chunk_instructions ''A'' ''S2'')
       \<in> set (events w') \<and>
     sr_previous_content (cr_section_runs (bk_chapter_runs b ! 1) ! 0) = []"
proof -
  obtain b w' where run: "generate_book scripted ''T'' 2 (Some ''out'') [] (world0 script1) = Inr (b, w')"
    and runs: "bk_chapter_runs b =
       [\<lparr>cr_title = ''A'', cr_previous_summary = Str [], cr_sections = [''S1'', ''S2''],
         cr_section_runs =
           [\<lparr>sr_title = ''S1'', sr_previous_content = [], sr_content = ''alpha''\<rparr>,
            \<lparr>sr_title = ''S2'', sr_previous_content = ''alpha'', sr_content = ''beta''\<rparr>],
         cr_content = ''alphabeta'', cr_summary = Str ''sumA''\<rparr>,
        \<lparr>cr_title = ''B'', cr_previous_summary = Str ''sumA'', cr_sections = [''S''],
         cr_section_runs =
           [\<lparr>sr_title = ''S'', sr_previous_content = [], sr_content = ''gamma''\<rparr>],
         cr_content = ''gamma'', cr_summary = Str ''sumB''\<rparr>]"
    using small_run by blast
  have mem: "bk_chapter_runs b ! 0 \<in> set (bk_chapter_runs b)"
    by (simp add: runs)
  have k: "1 < length (cr_section_runs (bk_chapter_runs b ! 0))"
    by (simp add: runs)
  show ?thesis
    using run section_context_window [OF run mem k]
    by (simp add: runs accumulated_before_def)
qed

section \<open>Assembling the full book\<close>

lemma chapter_files_map:
  assumes len: "length texts = length chapters"
    and all: "\<forall>k < length chapters.
       files w (chapter_dir out (Suc k) @ ''/full_chapter.md'') = Some (texts ! k)"
  shows "map (\<lambda>a. files w (chapter_file out (fst a))) (enumerate 1 chapters) = map Some texts"
proof (rule nth_equalityI)
  show "length (map (\<lambda>a. files w (chapter_file out (fst a))) (enumerate 1 chapters)) =
        length (map Some texts)"
    using len by simp
next
  fix k
  assume "k < length (map (\<lambda>a. files w (chapter_file out (fst a))) (enumerate 1 chapters))"
  then have k: "k < length chapters" by simp
  then show "map (\<lambda>a. files w (chapter_file out (fst a))) (enumerate 1 chapters) ! k =
        map Some texts ! k"
    using all len by (simp add: nth_enumerate_eq chapter_file_def)
qed

text \<open>
  C9. Let the file \<open>full_chapter.md\<close> of every chapter of the outline hold a text,
  whatever it is, and let the introduction and the conclusion be texts. Then writing the
  full book succeeds and leaves in \<open>full_book.md\<close> exactly \<open>full_book_text\<close> of the
  book's parts: the title page (title, author, annotation), the introduction, the
  chapter texts in outline order, each as it is read back in text mode (a carriage
  return, alone or before a line feed, is read as a line feed), the conclusion, and the
  bibliography entries numbered from 1. The text is a function of the parts alone, and
  writing it a second time changes nothing: the second run returns the very world the
  first one left.
\<close>

theorem write_full_book_idempotent:
  assumes len: "length texts = length chapters"
    and all: "\<forall>k < length chapters.
       files w (chapter_dir output_dir (Suc k) @ ''/full_chapter.md'') = Some (texts ! k)"
  shows "write_full_book output_dir metadata (Str introduction) chapters (Str conclusion)
           bibliography w =
           Inr (write_file (output_dir @ ''/full_book.md'')
                  (full_book_text metadata introduction (map universal_newlines texts)
                     conclusion bibliography) w) \<and>
         write_full_book output_dir metadata (Str introduction) chapters (Str conclusion)
           bibliography
           (write_file (output_dir @ ''/full_book.md'')
              (full_book_text metadata introduction (map universal_newlines texts)
                 conclusion bibliography) w) =
           Inr (write_file (output_dir @ ''/full_book.md'')
                  (full_book_text metadata introduction (map universal_newlines texts)
                     conclusion bibliography) w)"
proof -
  let ?text = "full_book_text metadata introduction (map universal_newlines texts)
     conclusion bibliography"
  let ?w1 = "write_file (output_dir @ ''/full_book.md'') ?text w"
  have once: "write_full_book output_dir metadata (Str introduction) chapters (Str conclusion)
      bibliography w = Inr ?w1"
    by (rule write_full_book_ok) (rule chapter_files_map [OF len all])
  have all1: "\<forall>k < length chapters.
       files ?w1 (chapter_dir output_dir (Suc k) @ ''/full_chapter.md'') = Some (texts ! k)"
    using all chapter_file_neq_top(1) [of output_dir]
    by (simp add: files_write_file chapter_file_def)
  have "write_full_book output_dir metadata (Str introduction) chapters (Str conclusion)
      bibliography ?w1 = Inr (write_file (output_dir @ ''/full_book.md'') ?text ?w1)"
    by (rule write_full_book_ok) (rule chapter_files_map [OF len all1])
  moreover have "write_file (output_dir @ ''/full_book.md'') ?text ?w1 = ?w1"
    by (simp add: write_file_def)
  ultimately show ?thesis
    using once by simp
qed

theorem write_full_book_idempotent_witness:
  "write_full_book ''out'' \<lparr>title = ''X'', author = ''Y'', annotation = ''Z''\<rparr> (Str ''I'')
     [''A'', ''B''] (Str ''C'') [''R1'', ''R2'']
     \<lparr>service = (), events = [], files = two_chapter_files\<rparr> =
   Inr \<lparr>service = (), events = [],
        files = two_chapter_files(''out/full_book.md'' \<mapsto>
          ''# X\<newline>\<newline>**Author:** Y\<newline>\<newline>**Annotation:**\<newline>\<newline>Z\<newline>\<newline>'' @
          ''# Introduction\<newline>\<newline>I\<newline>\<newline>'' @
          ''# Chapter 1: A\<newline>\<newline>alpha\<newline>\<newline>'' @
          ''# Chapter 2: B\<newline>\<newline>be\<newline>ta\<newline>gamma\<newline>\<newline>'' @
          ''# Conclusion\<newline>\<newline>C\<newline>\<newline>'' @
          ''# Bibliography\<newline>\<newline>1. R1\<newline>2. R2\<newline>'')\<rparr>"
proof -
  have all: "\<forall>k < length [''A'', ''B''].
       files \<lparr>service = (), events = [], files = two_chapter_files\<rparr>
         (chapter_dir ''out'' (Suc k) @ ''/full_chapter.md'') =
         Some ([''# Chapter 1: A\<newline>\<newline>alpha'',
                ''# Chapter 2: B\<newline>\<newline>be'' @ [CHR 0x0D] @ ''ta'' @ [CHR 0x0D, CHR 0x0A] @ ''gamma''] ! k)"
    by (simp add: less_Suc_eq two_chapter_files_def chapter_dir_def fmt_02d_def
          str_nat.simps digit_char_def)
  have len: "length [''# Chapter 1: A\<newline>\<newline>alpha'',
                ''# Chapter 2: B\<newline>\<newline>be'' @ [CHR 0x0D] @ ''ta'' @ [CHR 0x0D, CHR 0x0A] @ ''gamma''] =
             length [''A'', ''B'']" by simp
  show ?thesis
    using write_full_book_idempotent [OF len all, of "\<lparr>title = ''X'', author = ''Y'', annotation = ''Z''\<rparr>"
      "''I''" "''C''" "[''R1'', ''R2'']"]
    by (simp add: full_book_text_def title_page_def numbered_references_def
          enumerate_eq_zip upt_rec str_nat.simps digit_char_def write_file_def)
qed

end
